theory Spec2Isabelle
  imports Complex_Main
begin

section \<open>py-pinger: a shallow embedding of \<^verbatim>\<open>py-pinger.py\<close>\<close>

text \<open>
  The program pings a list of hosts by running the platform's \<^verbatim>\<open>ping\<close> utility once per
  host in a thread pool, and parses the text the utility prints. The embedding follows the
  source function by function. What the operating system supplies (the platform, the host
  name, the outcome of a shell command, Python's \<^verbatim>\<open>float\<close>) is a parameter, collected in
  the record \<open>env\<close>. Text is a \<open>string\<close>: the model covers decoded output whose
  characters lie in the 8-bit range, which includes everything \<^verbatim>\<open>ping\<close> prints in ASCII.
\<close>

subsection \<open>Exceptions\<close>

datatype error = IndexError | ValueError | UnicodeDecodeError

text \<open>Sequencing of computations that may raise: the first exception wins.\<close>

definition bind_err :: "error + 'a \<Rightarrow> ('a \<Rightarrow> error + 'b) \<Rightarrow> error + 'b" where
  "bind_err m f = (case m of Inl e \<Rightarrow> Inl e | Inr x \<Rightarrow> f x)"

subsection \<open>The class \<^verbatim>\<open>DEFAULTS\<close>\<close>

definition MAX_THREADS :: int where "MAX_THREADS = 50"
definition NUM_REQUESTS :: int where "NUM_REQUESTS = 4"
definition REQUEST_TIMEOUT_LINUX :: int where "REQUEST_TIMEOUT_LINUX = 2"
definition REQUEST_TIMEOUT_WINDOWS :: int where "REQUEST_TIMEOUT_WINDOWS = 2000"

subsection \<open>Python's string operations\<close>

text \<open>
  \<^verbatim>\<open>str.isspace\<close> on the 8-bit range: tab to carriage return, the four separators
  \<^verbatim>\<open>0x1c\<close> to \<^verbatim>\<open>0x1f\<close>, the blank, \<^verbatim>\<open>0x85\<close> and \<^verbatim>\<open>0xa0\<close>.
\<close>

definition whitespace :: "char list" where
  "whitespace = [CHR 0x09, CHR 0x0A, CHR 0x0B, CHR 0x0C, CHR 0x0D,
                 CHR 0x1C, CHR 0x1D, CHR 0x1E, CHR 0x1F, CHR 0x20, CHR 0x85, CHR 0xA0]"

definition isspace :: "char \<Rightarrow> bool" where
  "isspace c = (c \<in> set whitespace)"

definition lstrip :: "string \<Rightarrow> string" where
  "lstrip s = dropWhile isspace s"

definition rstrip :: "string \<Rightarrow> string" where
  "rstrip s = rev (dropWhile isspace (rev s))"

definition strip :: "string \<Rightarrow> string" where
  "strip s = rstrip (lstrip s)"

definition startswith :: "string \<Rightarrow> string \<Rightarrow> bool" where
  "startswith s p = (take (length p) s = p)"

text \<open>\<^verbatim>\<open>p in s\<close>: \<open>p\<close> occurs in \<open>s\<close> as a contiguous substring.\<close>

fun contains :: "string \<Rightarrow> string \<Rightarrow> bool" where
  "contains [] p = (p = [])"
| "contains (c # cs) p = (startswith (c # cs) p \<or> contains cs p)"

text \<open>
  \<^verbatim>\<open>s.split(sep)\<close> for a separator of one character (the source splits on the newline,
  the blank and the slash): never empty, and empty fields are kept.
\<close>

fun split :: "char \<Rightarrow> string \<Rightarrow> string list" where
  "split sep [] = [[]]"
| "split sep (c # cs) =
     (let fields = split sep cs
      in if c = sep then [] # fields else (c # hd fields) # tl fields)"

text \<open>\<^verbatim>\<open>xs[i]\<close> for a constant index \<open>i \<ge> 0\<close>: out of range raises.\<close>

definition item :: "'a list \<Rightarrow> nat \<Rightarrow> error + 'a" where
  "item xs i = (if i < length xs then Inr (xs ! i) else Inl IndexError)"

text \<open>\<^verbatim>\<open>s[:-k]\<close> for a constant \<open>k > 0\<close>: all but the last \<open>k\<close> characters, empty when
  there are no more than \<open>k\<close>.\<close>

definition drop_last :: "nat \<Rightarrow> string \<Rightarrow> string" where
  "drop_last k s = take (length s - k) s"

subsection \<open>Python's \<^verbatim>\<open>int\<close> and \<^verbatim>\<open>str\<close> on integers\<close>

definition isdigit :: "char \<Rightarrow> bool" where
  "isdigit c = (c \<in> set ''0123456789'')"

definition digit_val :: "char \<Rightarrow> nat" where
  "digit_val c = of_char c - 48"

definition digit_char :: "nat \<Rightarrow> char" where
  "digit_char d = char_of (48 + d)"

text \<open>
  The digits of an integer literal given to \<^verbatim>\<open>int\<close>: at least one digit, and single
  underscores between digits only. The flag says whether the previous character was a digit.
\<close>

fun int_body :: "bool \<Rightarrow> string \<Rightarrow> bool" where
  "int_body prev [] = prev"
| "int_body prev (c # cs) =
     (if isdigit c then int_body True cs
      else c = CHR ''_'' \<and> prev \<and> int_body False cs)"

definition digits_val :: "string \<Rightarrow> nat" where
  "digits_val s = foldl (\<lambda>acc c. 10 * acc + digit_val c) 0 s"

text \<open>
  \<^verbatim>\<open>int(s)\<close> for a string: surrounding whitespace is ignored, one sign is allowed, anything
  else that is not a decimal literal raises \<^verbatim>\<open>ValueError\<close>. (The optional limit of recent
  CPython versions on the number of digits is not modelled.)
\<close>

definition py_int :: "string \<Rightarrow> error + int" where
  "py_int s =
     (let t = strip s;
          neg = (t \<noteq> [] \<and> hd t = CHR ''-'');
          body = (if t \<noteq> [] \<and> (hd t = CHR ''-'' \<or> hd t = CHR ''+'') then tl t else t)
      in if int_body False body
         then Inr ((if neg then - 1 else 1) * int (digits_val (filter (\<lambda>c. c \<noteq> CHR ''_'') body)))
         else Inl ValueError)"

text \<open>\<^verbatim>\<open>str(n)\<close>, as the f-strings of the source format an integer.\<close>

fun str_nat :: "nat \<Rightarrow> string" where
  "str_nat n = (if n < 10 then [digit_char n] else str_nat (n div 10) @ [digit_char (n mod 10)])"

declare str_nat.simps [simp del]

definition str_int :: "int \<Rightarrow> string" where
  "str_int i = (if i < 0 then CHR ''-'' # str_nat (nat (- i)) else str_nat (nat i))"

text \<open>\<^verbatim>\<open>int(x)\<close> for a float \<open>x\<close>: the fractional part is cut off, towards zero.\<close>

definition int_of_float :: "rat \<Rightarrow> int" where
  "int_of_float x = (if 0 \<le> x then \<lfloor>x\<rfloor> else \<lceil>x\<rceil>)"

subsection \<open>The environment\<close>

text \<open>
  A finished \<^verbatim>\<open>ping\<close> process: its return code and what \<^verbatim>\<open>decode('utf-8')\<close> makes of the
  bytes on its two streams (the decoded text, or \<^verbatim>\<open>UnicodeDecodeError\<close>).
\<close>

record process =
  returncode :: int
  p_stdout :: "error + string"
  p_stderr :: "error + string"

text \<open>
  \<open>is_windows\<close> is \<^verbatim>\<open>platform.system() == "Windows"\<close>, \<open>gethostname\<close> is
  \<^verbatim>\<open>socket.gethostname()\<close>, \<open>run_shell\<close> is what \<^verbatim>\<open>subprocess.Popen(cmd, shell=True)\<close>
  followed by \<^verbatim>\<open>communicate()\<close> yields for a command line, and \<open>py_float\<close> is Python's
  \<^verbatim>\<open>float\<close> on strings: the exact value of the double a string denotes, or an exception
  (which stands for every string that \<^verbatim>\<open>int(float(s))\<close> rejects).
\<close>

record env =
  is_windows :: bool
  gethostname :: string
  run_shell :: "string \<Rightarrow> process"
  py_float :: "string \<Rightarrow> error + rat"

subsection \<open>The dataclass \<^verbatim>\<open>PingResult\<close>\<close>

record PingResult =
  packets :: "int list"
  rtt :: "int list"
  error :: string

text \<open>\<^verbatim>\<open>PingResult()\<close>: the defaults, then \<^verbatim>\<open>__post_init__\<close>.\<close>

definition new_PingResult :: PingResult where
  "new_PingResult = \<lparr>packets = [0, 0, 0], rtt = [0, 0, 0], error = []\<rparr>"

subsection \<open>Dictionaries keep insertion order\<close>

text \<open>
  A \<^verbatim>\<open>dict\<close> is an association list with distinct keys in insertion order. Its values are
  references: positions in the heap of \<^verbatim>\<open>PingResult\<close> objects, so that two entries holding
  the same object are told apart from two entries holding equal objects.
\<close>

type_synonym ref = nat
type_synonym 'k dict = "('k \<times> ref) list"

definition keys :: "'k dict \<Rightarrow> 'k list" where
  "keys d = map fst d"

text \<open>\<^verbatim>\<open>d[k] = v\<close>: an existing key keeps its position, a new key goes to the end.\<close>

definition setitem :: "'k dict \<Rightarrow> 'k \<Rightarrow> ref \<Rightarrow> 'k dict" where
  "setitem d k v =
     (if k \<in> set (keys d) then map (\<lambda>(k', v'). if k' = k then (k', v) else (k', v')) d
      else d @ [(k, v)])"

text \<open>\<^verbatim>\<open>dict.fromkeys(ks, v)\<close>: every key is bound to the one value \<open>v\<close>.\<close>

definition fromkeys :: "'k list \<Rightarrow> ref \<Rightarrow> 'k dict" where
  "fromkeys ks v = foldl (\<lambda>d k. setitem d k v) [] ks"

definition getitem :: "'k dict \<Rightarrow> 'k \<Rightarrow> ref option" where
  "getitem d k = map_of d k"

subsection \<open>The class \<^verbatim>\<open>Pinger\<close>\<close>

text \<open>
  The fields of a \<^verbatim>\<open>Pinger\<close>, and the heap of the \<^verbatim>\<open>PingResult\<close> objects it has created:
  \<open>heap p ! r\<close> is the object behind the reference \<open>r\<close>.
\<close>

record Pinger =
  source_host :: string
  target_dict :: "string dict"
  num_requests :: int
  request_timeout :: int
  start_time :: "nat option"
  end_time :: "nat option"
  heap :: "PingResult list"

text \<open>The constructor takes one host name or a list of them.\<close>

datatype target = Str string | List "string list"

definition Pinger_init :: "env \<Rightarrow> target \<Rightarrow> Pinger" where
  "Pinger_init e target =
     (let target' = (case target of Str s \<Rightarrow> [s] | List l \<Rightarrow> l)
      in \<lparr>source_host = gethostname e,
          target_dict = fromkeys target' 0,
          num_requests = NUM_REQUESTS,
          request_timeout =
            (if is_windows e then REQUEST_TIMEOUT_WINDOWS else REQUEST_TIMEOUT_LINUX),
          start_time = None,
          end_time = None,
          heap = [new_PingResult]\<rparr>)"

text \<open>The setter of the property \<^verbatim>\<open>num_requests\<close>.\<close>

definition set_num_requests :: "int \<Rightarrow> Pinger \<Rightarrow> Pinger" where
  "set_num_requests count p =
     (if count < 1 \<or> count > 100 then p\<lparr>num_requests := NUM_REQUESTS\<rparr>
      else p\<lparr>num_requests := count\<rparr>)"

text \<open>The setter of the property \<^verbatim>\<open>request_timeout\<close>.\<close>

definition set_request_timeout :: "env \<Rightarrow> int \<Rightarrow> Pinger \<Rightarrow> Pinger" where
  "set_request_timeout e v p =
     (if v < 0
      then p\<lparr>request_timeout :=
               (if is_windows e then REQUEST_TIMEOUT_WINDOWS else REQUEST_TIMEOUT_LINUX)\<rparr>
      else p\<lparr>request_timeout := v\<rparr>)"

text \<open>The property \<^verbatim>\<open>_ping_cmd\<close>.\<close>

definition ping_cmd :: "env \<Rightarrow> Pinger \<Rightarrow> string" where
  "ping_cmd e p =
     (if is_windows e
      then ''ping -n '' @ str_int (num_requests p) @ '' -w '' @ str_int (request_timeout p)
      else ''ping -c '' @ str_int (num_requests p) @ '' -W '' @ str_int (request_timeout p))"

subsection \<open>Parsing the output of \<^verbatim>\<open>ping\<close>: the method \<^verbatim>\<open>_ping_it\<close>\<close>

text \<open>
  The four list displays of the loop body, each evaluated from left to right. The lists
  are in the order of the fields of \<^verbatim>\<open>PingResult\<close>: minimum, maximum, average for
  \<open>rtt\<close>, and sent, received, lost for \<open>packets\<close>.
\<close>

definition windows_rtt :: "string \<Rightarrow> error + int list" where
  "windows_rtt token =
     (let rtt_line = split (CHR '' '') (strip token) in
      bind_err (item rtt_line 2) (\<lambda>f2. bind_err (py_int (drop_last 3 f2)) (\<lambda>v0.
      bind_err (item rtt_line 5) (\<lambda>f5. bind_err (py_int (drop_last 3 f5)) (\<lambda>v1.
      bind_err (item rtt_line 8) (\<lambda>f8. bind_err (py_int (drop_last 2 f8)) (\<lambda>v2.
      Inr [v0, v1, v2])))))))"

definition windows_packets :: "string \<Rightarrow> error + int list" where
  "windows_packets token =
     (let packet_line = split (CHR '' '') (strip token) in
      bind_err (item packet_line 3) (\<lambda>f3. bind_err (py_int (drop_last 1 f3)) (\<lambda>v0.
      bind_err (item packet_line 6) (\<lambda>f6. bind_err (py_int (drop_last 1 f6)) (\<lambda>v1.
      bind_err (item packet_line 9) (\<lambda>f9. bind_err (py_int f9) (\<lambda>v2.
      Inr [v0, v1, v2])))))))"

definition linux_rtt :: "env \<Rightarrow> string \<Rightarrow> error + int list" where
  "linux_rtt e token =
     bind_err (item (split (CHR '' '') token) 3) (\<lambda>f3.
     let rtt_values = split (CHR ''/'') f3 in
      bind_err (item rtt_values 0) (\<lambda>s0. bind_err (py_float e s0) (\<lambda>x0.
      bind_err (item rtt_values 2) (\<lambda>s2. bind_err (py_float e s2) (\<lambda>x2.
      bind_err (item rtt_values 1) (\<lambda>s1. bind_err (py_float e s1) (\<lambda>x1.
      Inr [int_of_float x0, int_of_float x2, int_of_float x1])))))))"

definition linux_packets :: "string \<Rightarrow> error + int list" where
  "linux_packets token =
     (let packet_line = split (CHR '' '') token in
      bind_err (item packet_line 0) (\<lambda>f0. bind_err (py_int f0) (\<lambda>v0.
      bind_err (item packet_line 3) (\<lambda>f3. bind_err (py_int f3) (\<lambda>v1.
      bind_err (item packet_line 5) (\<lambda>f5. bind_err (py_int (drop_last 1 f5)) (\<lambda>v2.
      Inr [v0, v1, v2])))))))"

text \<open>One round of the loop over the lines of the output.\<close>

definition ping_line :: "env \<Rightarrow> PingResult \<Rightarrow> string \<Rightarrow> error + PingResult" where
  "ping_line e ping_result line =
     (let token = lstrip line in
      if is_windows e then
        if startswith token ''Minimum''
        then bind_err (windows_rtt token) (\<lambda>v. Inr (ping_result\<lparr>rtt := v\<rparr>))
        else if startswith token ''Packets:''
        then bind_err (windows_packets token) (\<lambda>v. Inr (ping_result\<lparr>packets := v\<rparr>))
        else Inr ping_result
      else
        if contains token ''rtt min''
        then bind_err (linux_rtt e token) (\<lambda>v. Inr (ping_result\<lparr>rtt := v\<rparr>))
        else if contains token ''packets transmitted,''
        then bind_err (linux_packets token) (\<lambda>v. Inr (ping_result\<lparr>packets := v\<rparr>))
        else Inr ping_result)"

text \<open>The loop: an exception in one round ends it.\<close>

fun ping_lines :: "env \<Rightarrow> PingResult \<Rightarrow> string list \<Rightarrow> error + PingResult" where
  "ping_lines e ping_result [] = Inr ping_result"
| "ping_lines e ping_result (line # lines) =
     bind_err (ping_line e ping_result line) (\<lambda>r. ping_lines e r lines)"

text \<open>
  \<^verbatim>\<open>_ping_it\<close>: run the command, decode both streams, then either record the failure of
  the process or parse what it printed. The field \<open>error\<close> is \<^verbatim>\<open>None\<close> for a moment
  when the process wrote nothing on its error stream; that is the inner \<open>option\<close>.
\<close>

definition ping_it :: "env \<Rightarrow> Pinger \<Rightarrow> string \<Rightarrow> error + PingResult" where
  "ping_it e p target_host =
     (let cmd = ping_cmd e p @ '' '' @ target_host;
          ping_result = new_PingResult;
          process = run_shell e cmd;
          p_rc = returncode process
      in bind_err (p_stdout process) (\<lambda>out. bind_err (p_stderr process) (\<lambda>err.
         if p_rc \<noteq> 0 then
           (case (if length err > 0 then Some (strip err) else None) of
              Some msg \<Rightarrow> Inr (ping_result\<lparr>error := msg\<rparr>)
            | None \<Rightarrow>
                Inr (ping_result\<lparr>error :=
                       ''('' @ str_int p_rc @ '')'' @ (if p_rc = 1 then '' offline?'' else [])\<rparr>))
         else ping_lines e ping_result (split (CHR 0x0A) out))))"

text \<open>The local variable \<^verbatim>\<open>process\<close> of \<^verbatim>\<open>_ping_it\<close>, once it has ended.\<close>

definition ping_process :: "env \<Rightarrow> Pinger \<Rightarrow> string \<Rightarrow> process" where
  "ping_process e p target_host = run_shell e (ping_cmd e p @ '' '' @ target_host)"

text \<open>
  \<^verbatim>\<open>_capture_target\<close>: the object \<^verbatim>\<open>_ping_it\<close> created enters the heap, and the entry of
  the target is bound to it. An exception of \<^verbatim>\<open>_ping_it\<close> leaves the \<^verbatim>\<open>Pinger\<close> as it was.
\<close>

definition capture_target :: "env \<Rightarrow> string \<Rightarrow> Pinger \<Rightarrow> error + Pinger" where
  "capture_target e target p =
     bind_err (ping_it e p target) (\<lambda>result.
       Inr (p\<lparr>heap := heap p @ [result],
              target_dict := setitem (target_dict p) target (length (heap p))\<rparr>))"

subsection \<open>The thread pool of \<^verbatim>\<open>ping_targets\<close>\<close>

text \<open>
  \<^verbatim>\<open>executor.map\<close> queues one call of \<^verbatim>\<open>_capture_target\<close> per key of the dictionary, in
  the order of the keys. A worker thread takes the call at the head of the queue when fewer
  than \<^verbatim>\<open>max_workers\<close> calls are in flight (\<open>Start\<close>); a call in flight ends at any later
  moment (\<open>Finish\<close>). The only shared object a call writes is the dictionary, in one
  assignment at its end, and what \<^verbatim>\<open>_ping_it\<close> reads of the \<^verbatim>\<open>Pinger\<close> (the two settings)
  does not change during the run, so the whole effect of a call takes place at its
  \<open>Finish\<close>. An exception raised in a call stays in its future, which nobody reads: the
  iterator that \<^verbatim>\<open>executor.map\<close> returns is dropped.
\<close>

datatype event = Start | Finish string

record pool =
  queue :: "string list"
  running :: "string list"
  pinger :: Pinger

fun step :: "env \<Rightarrow> nat \<Rightarrow> event \<Rightarrow> pool \<Rightarrow> pool option" where
  "step e max_workers Start s =
     (case queue s of
        [] \<Rightarrow> None
      | t # ts \<Rightarrow>
          if length (running s) < max_workers
          then Some (s\<lparr>queue := ts, running := running s @ [t]\<rparr>)
          else None)"
| "step e max_workers (Finish t) s =
     (if t \<in> set (running s)
      then Some (s\<lparr>running := remove1 t (running s),
                   pinger := (case capture_target e t (pinger s) of
                                Inl ex \<Rightarrow> pinger s
                              | Inr p' \<Rightarrow> p')\<rparr>)
      else None)"

text \<open>A schedule is a list of events; \<open>None\<close> when an event is not possible where it stands.\<close>

fun exec :: "env \<Rightarrow> nat \<Rightarrow> event list \<Rightarrow> pool \<Rightarrow> pool option" where
  "exec e max_workers [] s = Some s"
| "exec e max_workers (ev # evs) s =
     (case step e max_workers ev s of
        None \<Rightarrow> None
      | Some s' \<Rightarrow> exec e max_workers evs s')"

definition submitted :: "Pinger \<Rightarrow> pool" where
  "submitted p = \<lparr>queue = keys (target_dict p), running = [], pinger = p\<rparr>"

definition idle :: "pool \<Rightarrow> bool" where
  "idle s = (queue s = [] \<and> running s = [])"

text \<open>
  \<^verbatim>\<open>ping_targets\<close>, given the two readings of the clock and the schedule the threads
  follow. \<^verbatim>\<open>ThreadPoolExecutor\<close> raises \<^verbatim>\<open>ValueError\<close> for \<^verbatim>\<open>max_workers\<close> below 1. Leaving
  the \<^verbatim>\<open>with\<close> block waits until the pool is idle; the result is \<open>None\<close> when the event
  list is not a schedule that ends there.
\<close>

definition ping_targets ::
  "env \<Rightarrow> nat \<Rightarrow> nat \<Rightarrow> event list \<Rightarrow> Pinger \<Rightarrow> error + Pinger option" where
  "ping_targets e now0 now1 evs p =
     (let num_workers = min MAX_THREADS (int (length (target_dict p)));
          p0 = p\<lparr>start_time := Some now0\<rparr>
      in if num_workers \<le> 0 then Inl ValueError
         else (case exec e (nat num_workers) evs (submitted p0) of
                 None \<Rightarrow> Inr None
               | Some s \<Rightarrow>
                   if idle s then Inr (Some ((pinger s)\<lparr>end_time := Some now1\<rparr>))
                   else Inr None))"

text \<open>
  \<^verbatim>\<open>pinger.results.items()\<close>, the list that \<^verbatim>\<open>output_text\<close> and \<^verbatim>\<open>output_csv\<close> walk
  through, one row per pair.
\<close>

definition results_items :: "Pinger \<Rightarrow> (string \<times> PingResult) list" where
  "results_items p = map (\<lambda>(target_host, r). (target_host, heap p ! r)) (target_dict p)"

text \<open>The set-up of \<^verbatim>\<open>main\<close>: construct, then assign the two settings.\<close>

definition main_setup :: "env \<Rightarrow> string list \<Rightarrow> int \<Rightarrow> int \<Rightarrow> Pinger" where
  "main_setup e host_list count wait =
     set_request_timeout e wait (set_num_requests count (Pinger_init e (List host_list)))"

subsection \<open>What \<^verbatim>\<open>ping\<close> prints\<close>

text \<open>
  The statistics lines of the two platforms, as far as \<^verbatim>\<open>_ping_it\<close> reads them. They
  describe the input, not the program: they say what it means that \<^verbatim>\<open>ping\<close> reports
  certain numbers. \<open>join\<close> is Python's \<^verbatim>\<open>sep.join\<close>; here it puts the words of a line
  together.
\<close>

fun join :: "char \<Rightarrow> string list \<Rightarrow> string" where
  "join sep [] = []"
| "join sep [x] = x"
| "join sep (x # y # ys) = x @ sep # join sep (y # ys)"

text \<open>A printed number has neither a blank nor a slash in it.\<close>

definition plain :: "string \<Rightarrow> bool" where
  "plain s = (CHR '' '' \<notin> set s \<and> CHR ''/'' \<notin> set s)"

text \<open>
  Windows: \<^verbatim>\<open>Minimum = 1ms, Maximum = 9ms, Average = 4ms\<close> and
  \<^verbatim>\<open>Packets: Sent = 4, Received = 3, Lost = 1 (25% loss),\<close>. Linux (iputils):
  \<^verbatim>\<open>rtt min/avg/max/mdev = 0.5/1.25/2.75/0.5 ms\<close>.
\<close>

definition windows_rtt_line :: "string \<Rightarrow> string \<Rightarrow> string \<Rightarrow> string" where
  "windows_rtt_line mn mx av =
     join (CHR '' '') [''Minimum'', ''='', mn @ ''ms,'', ''Maximum'', ''='', mx @ ''ms,'',
                       ''Average'', ''='', av @ ''ms'']"


definition linux_rtt_line :: "string \<Rightarrow> string \<Rightarrow> string \<Rightarrow> string \<Rightarrow> string" where
  "linux_rtt_line mn av mx mdev =
     join (CHR '' '') [''rtt'', ''min/avg/max/mdev'', ''='',
                       join (CHR ''/'') [mn, av, mx, mdev], ''ms'']"

text \<open>
  A line reports the round-trip times \<open>mn\<close>, \<open>av\<close>, \<open>mx\<close>: it is the statistics line of
  the platform for three printed numbers with these values, followed on Windows by white
  space only (the carriage return) and on Linux by anything. The values are what
  \<^verbatim>\<open>int\<close> reads on Windows and what \<^verbatim>\<open>float\<close> reads on Linux.
\<close>

definition reports_rtt :: "env \<Rightarrow> string \<Rightarrow> rat \<Rightarrow> rat \<Rightarrow> rat \<Rightarrow> bool" where
  "reports_rtt e token mn av mx =
     (if is_windows e then
        (\<exists>a b c i j k trail.
           token = windows_rtt_line a c b @ trail \<and> (\<forall>ch \<in> set trail. isspace ch) \<and>
           plain a \<and> plain b \<and> plain c \<and>
           py_int a = Inr i \<and> py_int b = Inr j \<and> py_int c = Inr k \<and>
           mn = of_int i \<and> av = of_int j \<and> mx = of_int k)
      else
        (\<exists>a b c d rest.
           token = linux_rtt_line a b c d @ rest \<and>
           plain a \<and> plain b \<and> plain c \<and> plain d \<and>
           py_float e a = Inr mn \<and> py_float e b = Inr av \<and> py_float e c = Inr mx))"


subsection \<open>What a run of the pool maintains\<close>

text \<open>
  What a run leaves behind for a target: the object \<^verbatim>\<open>_ping_it\<close> returned, or the object
  of the constructor when \<^verbatim>\<open>_ping_it\<close> raised and nothing was written.
\<close>

definition outcome :: "env \<Rightarrow> Pinger \<Rightarrow> string \<Rightarrow> PingResult" where
  "outcome e p t = (case ping_it e p t of Inl ex \<Rightarrow> new_PingResult | Inr r \<Rightarrow> r)"

text \<open>
  The entry of a target whose call has ended, seen from the \<^verbatim>\<open>Pinger\<close> \<open>p0\<close> the pool
  started with: still the entry of \<open>p0\<close> after an exception, and otherwise a reference to
  an object created during the run that holds the result.
\<close>

definition done_entry :: "env \<Rightarrow> Pinger \<Rightarrow> Pinger \<Rightarrow> string \<Rightarrow> bool" where
  "done_entry e p0 p t =
     (case ping_it e p0 t of
        Inl ex \<Rightarrow> getitem (target_dict p) t = getitem (target_dict p0) t
      | Inr r \<Rightarrow> (\<exists>a. getitem (target_dict p) t = Some a \<and> length (heap p0) \<le> a \<and>
                     a < length (heap p) \<and> heap p ! a = r))"

text \<open>
  The invariant of a run: the keys and the two settings stay, the calls not yet ended are
  distinct keys whose entries are untouched, the heap only grows, every reference points
  into the heap, and an object created during the run is held by one entry only.
\<close>

definition pool_inv :: "env \<Rightarrow> Pinger \<Rightarrow> pool \<Rightarrow> bool" where
  "pool_inv e p0 s =
     (keys (target_dict (pinger s)) = keys (target_dict p0) \<and>
      distinct (queue s @ running s) \<and>
      set (queue s @ running s) \<subseteq> set (keys (target_dict p0)) \<and>
      num_requests (pinger s) = num_requests p0 \<and>
      request_timeout (pinger s) = request_timeout p0 \<and>
      take (length (heap p0)) (heap (pinger s)) = heap p0 \<and>
      (\<forall>t a. getitem (target_dict (pinger s)) t = Some a \<longrightarrow> a < length (heap (pinger s))) \<and>
      (\<forall>t t' a. getitem (target_dict (pinger s)) t = Some a \<and>
                 getitem (target_dict (pinger s)) t' = Some a \<and> length (heap p0) \<le> a \<longrightarrow> t = t') \<and>
      (\<forall>t \<in> set (queue s @ running s).
          getitem (target_dict (pinger s)) t = getitem (target_dict p0) t) \<and>
      (\<forall>t \<in> set (keys (target_dict p0)) - set (queue s @ running s). done_entry e p0 (pinger s) t))"

definition wf_pinger :: "Pinger \<Rightarrow> bool" where
  "wf_pinger p =
     (distinct (keys (target_dict p)) \<and>
      (\<forall>t a. getitem (target_dict p) t = Some a \<longrightarrow> a < length (heap p)))"

subsection \<open>Two example machines\<close>

text \<open>
  A reading of plain decimals such as \<^verbatim>\<open>1.25\<close> and \<^verbatim>\<open>-3.5\<close>, for the examples: it
  agrees with \<^verbatim>\<open>float\<close> on the short binary fractions used there.
\<close>

definition decimal :: "string \<Rightarrow> error + rat" where
  "decimal s =
     (let neg = (s \<noteq> [] \<and> hd s = CHR ''-'');
          sign = (if neg then - 1 else 1);
          digits = (\<lambda>a. a \<noteq> [] \<and> list_all isdigit a)
      in case split (CHR ''.'') (if neg then tl s else s) of
           [a] \<Rightarrow>
             if digits a then Inr (sign * of_nat (digits_val a)) else Inl ValueError
         | [a, b] \<Rightarrow>
             if digits a \<and> digits b
             then Inr (sign * (of_nat (digits_val a) + of_nat (digits_val b) / 10 ^ length b))
             else Inl ValueError
         | _ \<Rightarrow> Inl ValueError)"

text \<open>What \<^verbatim>\<open>ping\<close> prints for a host that answers, shortened to the lines that matter.\<close>

definition linux_reply :: string where
  "linux_reply =
     ''--- up ping statistics ---'' @ [CHR 0x0A] @
     ''4 packets transmitted, 4 received, 0% packet loss, time 3004ms'' @ [CHR 0x0A] @
     ''rtt min/avg/max/mdev = 0.5/1.25/2.75/0.5 ms'' @ [CHR 0x0A]"

definition windows_reply :: string where
  "windows_reply =
     ''Ping statistics for up:'' @ [CHR 0x0D, CHR 0x0A] @
     ''    Packets: Sent = 4, Received = 3, Lost = 1 (25% loss),'' @ [CHR 0x0D, CHR 0x0A] @
     ''    Minimum = 1ms, Maximum = 9ms, Average = 4ms'' @ [CHR 0x0D, CHR 0x0A]"

text \<open>
  The machines answer by the host at the end of the command line: \<^verbatim>\<open>down\<close> makes
  \<^verbatim>\<open>ping\<close> fail with return code 1 and nothing printed, \<^verbatim>\<open>mute\<close> makes it succeed with
  nothing printed, \<^verbatim>\<open>odd\<close> makes it print a statistics line of another shape (on Linux
  the summary line of iputils when ICMP errors came back among the replies, on Windows a
  line cut after its first word), \<^verbatim>\<open>early\<close> makes it report round-trip times below zero,
  and every other host answers.
\<close>

definition example_shell :: "string \<Rightarrow> string \<Rightarrow> string \<Rightarrow> string \<Rightarrow> process" where
  "example_shell reply odd_text early_text host =
     (if host = ''down'' then \<lparr>returncode = 1, p_stdout = Inr [], p_stderr = Inr []\<rparr>
      else if host = ''mute'' then \<lparr>returncode = 0, p_stdout = Inr [], p_stderr = Inr []\<rparr>
      else if host = ''odd'' then \<lparr>returncode = 0, p_stdout = Inr odd_text, p_stderr = Inr []\<rparr>
      else if host = ''early'' then \<lparr>returncode = 0, p_stdout = Inr early_text, p_stderr = Inr []\<rparr>
      else \<lparr>returncode = 0, p_stdout = Inr reply, p_stderr = Inr []\<rparr>)"

definition linux_box :: env where
  "linux_box =
     \<lparr>is_windows = False, gethostname = ''tux'',
      run_shell = (\<lambda>cmd. example_shell linux_reply
                     ''4 packets transmitted, 2 received, +2 errors, 50% packet loss, time 3004ms''
                     ''rtt min/avg/max/mdev = -3.5/-2.5/-1.5/0.5 ms''
                     (last (split (CHR '' '') cmd))),
      py_float = decimal\<rparr>"

definition windows_box :: env where
  "windows_box =
     \<lparr>is_windows = True, gethostname = ''win'',
      run_shell = (\<lambda>cmd. example_shell windows_reply ''Minimum''
                     (''Packets: Sent = 4, Received = 4, Lost = 0 (0% loss),'' @ [CHR 0x0A] @
                      ''Minimum = -3ms, Maximum = -1ms, Average = -2ms'')
                     (last (split (CHR '' '') cmd))),
      py_float = decimal\<rparr>"

section \<open>Properties\<close>

subsection \<open>Strings\<close>

lemma split_no_sep: "sep \<notin> set a \<Longrightarrow> split sep a = [a]"
  by (induction a) (auto simp: Let_def)

lemma split_append_sep: "sep \<notin> set a \<Longrightarrow> split sep (a @ sep # b) = a # split sep b"
  by (induction a) (auto simp: Let_def)

lemma split_join_Cons:
  "sep \<notin> set f \<Longrightarrow> split sep (join sep (f # g # gs) @ rest) = f # split sep (join sep (g # gs) @ rest)"
  by (simp add: split_append_sep)

lemma split_join:
  "fs \<noteq> [] \<Longrightarrow> \<forall>f \<in> set fs. sep \<notin> set f \<Longrightarrow> split sep (join sep fs) = fs"
  by (induction sep fs rule: join.induct) (auto simp: split_no_sep split_append_sep)

lemma set_join: "set (join sep fs) \<subseteq> insert sep (\<Union> (set ` set fs))"
  by (induction sep fs rule: join.induct) auto

lemma lstrip_id: "s \<noteq> [] \<Longrightarrow> \<not> isspace (hd s) \<Longrightarrow> lstrip s = s"
  by (cases s) (auto simp: lstrip_def)

lemma rstrip_trail:
  "s \<noteq> [] \<Longrightarrow> \<not> isspace (last s) \<Longrightarrow> \<forall>c \<in> set trail. isspace c \<Longrightarrow> rstrip (s @ trail) = s"
proof -
  assume s: "s \<noteq> []" and l: "\<not> isspace (last s)" and t: "\<forall>c \<in> set trail. isspace c"
  have "dropWhile isspace (rev trail @ rev s) = dropWhile isspace (rev s)"
    using t by (simp add: dropWhile_append)
  moreover have "dropWhile isspace (rev s) = rev s"
    using s l by (cases "rev s") (auto simp: last_rev [symmetric] simp del: last_rev)
  ultimately show ?thesis by (simp add: rstrip_def)
qed

lemma strip_trail:
  "s \<noteq> [] \<Longrightarrow> \<not> isspace (hd s) \<Longrightarrow> \<not> isspace (last s) \<Longrightarrow> \<forall>c \<in> set trail. isspace c \<Longrightarrow>
   strip (s @ trail) = s"
  by (simp add: strip_def lstrip_id rstrip_trail)

lemma int_of_float_mono: "x \<le> y \<Longrightarrow> int_of_float x \<le> int_of_float y"
proof -
  assume xy: "x \<le> y"
  consider "0 \<le> x" | "x < 0" "0 \<le> y" | "y < 0" using xy by linarith
  then show ?thesis
  proof cases
    case 1
    with xy show ?thesis by (simp add: int_of_float_def floor_mono)
  next
    case 2
    then have a: "\<lceil>x\<rceil> \<le> 0" and b: "0 \<le> \<lfloor>y\<rfloor>"
      by (simp_all add: ceiling_le_zero)
    have "int_of_float x = \<lceil>x\<rceil>" "int_of_float y = \<lfloor>y\<rfloor>"
      using 2 by (simp_all add: int_of_float_def)
    with a b show ?thesis by linarith
  next
    case 3
    with xy show ?thesis by (simp add: int_of_float_def ceiling_mono)
  qed
qed

lemma int_of_float_nonneg: "0 \<le> x \<Longrightarrow> 0 \<le> int_of_float x"
  by (simp add: int_of_float_def)

subsection \<open>Statistics lines are read as printed\<close>

lemma isspace_simps: "\<not> isspace (CHR ''M'')" "\<not> isspace (CHR ''P'')" "\<not> isspace (CHR ''s'')"
  "\<not> isspace (CHR '','')"
  by (simp_all add: isspace_def whitespace_def)

lemma bind_err_Inr: "bind_err (Inr x) f = f x"
  by (simp add: bind_err_def)

lemma bind_err_Inr_iff: "bind_err m f = Inr y \<longleftrightarrow> (\<exists>x. m = Inr x \<and> f x = Inr y)"
  by (cases m) (simp_all add: bind_err_def)

lemma windows_rtt_format:
  assumes "plain a" "plain b" "plain c" and trail: "\<forall>ch \<in> set trail. isspace ch"
  shows "windows_rtt (windows_rtt_line a c b @ trail) =
           bind_err (py_int a) (\<lambda>v0. bind_err (py_int c) (\<lambda>v1. bind_err (py_int b) (\<lambda>v2.
             Inr [v0, v1, v2])))"
proof -
  let ?fields = "[''Minimum'', ''='', a @ ''ms,'', ''Maximum'', ''='', c @ ''ms,'',
                  ''Average'', ''='', b @ ''ms'']"
  have st: "strip (windows_rtt_line a c b @ trail) = windows_rtt_line a c b"
    by (rule strip_trail [OF _ _ _ trail]) (simp_all add: windows_rtt_line_def isspace_simps)
  have sp: "split (CHR '' '') (windows_rtt_line a c b) = ?fields"
    unfolding windows_rtt_line_def using assms(1-3)
    by (intro split_join) (simp_all add: plain_def)
  show ?thesis
    by (simp add: windows_rtt_def st sp item_def drop_last_def bind_err_Inr)
qed


lemma linux_rtt_format:
  assumes "plain a" "plain b" "plain c" "plain d"
  shows "linux_rtt e (linux_rtt_line a b c d @ rest) =
           bind_err (py_float e a) (\<lambda>x0. bind_err (py_float e c) (\<lambda>x2. bind_err (py_float e b) (\<lambda>x1.
             Inr [int_of_float x0, int_of_float x2, int_of_float x1])))"
proof -
  let ?v = "join (CHR ''/'') [a, b, c, d]"
  have nb: "CHR '' '' \<notin> set ?v"
    using assms set_join [of "CHR ''/''" "[a, b, c, d]"] by (auto simp: plain_def)
  have "split (CHR '' '') (linux_rtt_line a b c d @ rest) =
          ''rtt'' # ''min/avg/max/mdev'' # ''='' # ?v #
            split (CHR '' '') (join (CHR '' '') [''ms''] @ rest)"
    unfolding linux_rtt_line_def using nb
    by (simp add: split_join_Cons del: join.simps)
  then have f3: "item (split (CHR '' '') (linux_rtt_line a b c d @ rest)) 3 = Inr ?v"
    by (simp add: item_def)
  have sp: "split (CHR ''/'') ?v = [a, b, c, d]"
    using assms by (intro split_join) (simp_all add: plain_def)
  show ?thesis
    unfolding linux_rtt_def f3 bind_err_Inr Let_def sp
    by (simp add: item_def bind_err_Inr)
qed

subsection \<open>The loop over the lines\<close>

lemma ping_it_failed:
  assumes "returncode (ping_process e p t) \<noteq> 0"
    and "p_stdout (ping_process e p t) = Inr out" and "p_stderr (ping_process e p t) = Inr err"
  shows "ping_it e p t =
           Inr (new_PingResult\<lparr>error :=
                  (if err = []
                   then ''('' @ str_int (returncode (ping_process e p t)) @ '')'' @
                        (if returncode (ping_process e p t) = 1 then '' offline?'' else [])
                   else strip err)\<rparr>)"
  using assms by (simp add: ping_it_def ping_process_def Let_def bind_err_Inr)

lemma ping_it_succeeded:
  assumes "returncode (ping_process e p t) = 0"
    and "p_stdout (ping_process e p t) = Inr out" and "p_stderr (ping_process e p t) = Inr err"
  shows "ping_it e p t = ping_lines e new_PingResult (split (CHR 0x0A) out)"
  using assms by (simp add: ping_it_def ping_process_def Let_def bind_err_Inr)

lemma ping_it_decoded:
  assumes "ping_it e p t = Inr r"
  shows "\<exists>out err. p_stdout (ping_process e p t) = Inr out \<and> p_stderr (ping_process e p t) = Inr err"
  using assms
  by (cases "p_stdout (ping_process e p t)"; cases "p_stderr (ping_process e p t)")
     (simp_all add: ping_it_def ping_process_def Let_def bind_err_def)

lemma ping_lines_inv:
  assumes "ping_lines e r0 ls = Inr r" and "I r0"
    and "\<And>l r1 r2. l \<in> set ls \<Longrightarrow> I r1 \<Longrightarrow> ping_line e r1 l = Inr r2 \<Longrightarrow> I r2"
  shows "I r"
  using assms
proof (induction ls arbitrary: r0)
  case Nil
  then show ?case by simp
next
  case (Cons l ls)
  from Cons.prems(1) obtain r1 where r1: "ping_line e r0 l = Inr r1" "ping_lines e r1 ls = Inr r"
    by (cases "ping_line e r0 l") (simp_all add: bind_err_def)
  have "I r1" using Cons.prems(3) [of l r0 r1] Cons.prems(2) r1(1) by simp
  moreover have "\<And>l' r1 r2. l' \<in> set ls \<Longrightarrow> I r1 \<Longrightarrow> ping_line e r1 l' = Inr r2 \<Longrightarrow> I r2"
    using Cons.prems(3) by (meson list.set_intros(2))
  ultimately show ?case
    using Cons.IH [OF r1(2)] by blast
qed

lemma ping_line_cases:
  assumes "ping_line e r1 l = Inr r2"
  shows "(\<exists>v. r2 = r1\<lparr>rtt := v\<rparr>) \<or> (\<exists>v. r2 = r1\<lparr>packets := v\<rparr>) \<or> r2 = r1"
  using assms by (auto simp: ping_line_def Let_def bind_err_Inr_iff split: if_splits)

lemma ping_line_error: "ping_line e r1 l = Inr r2 \<Longrightarrow> error r2 = error r1"
  using ping_line_cases [of e r1 l r2] by auto

lemma ping_lines_error: "ping_lines e r0 ls = Inr r \<Longrightarrow> error r = error r0"
  by (rule ping_lines_inv [where I = "\<lambda>x. error x = error r0"]) (auto dest: ping_line_error)

lemma ping_line_rtt:
  assumes step: "ping_line e r1 l = Inr r2"
    and rep: "(if is_windows e then startswith (lstrip l) ''Minimum''
               else contains (lstrip l) ''rtt min'') \<longrightarrow>
              (\<exists>mn av mx. reports_rtt e (lstrip l) mn av mx \<and> 0 \<le> mn \<and> mn \<le> av \<and> av \<le> mx)"
    and old: "0 \<le> rtt r1 ! 0 \<and> rtt r1 ! 0 \<le> rtt r1 ! 2 \<and> rtt r1 ! 2 \<le> rtt r1 ! 1"
  shows "0 \<le> rtt r2 ! 0 \<and> rtt r2 ! 0 \<le> rtt r2 ! 2 \<and> rtt r2 ! 2 \<le> rtt r2 ! 1"
proof (cases "if is_windows e then startswith (lstrip l) ''Minimum''
              else contains (lstrip l) ''rtt min''")
  case False
  with step have "rtt r2 = rtt r1"
    by (auto simp: ping_line_def Let_def bind_err_Inr_iff split: if_splits)
  with old show ?thesis by simp
next
  case True
  with rep obtain mn av mx where
    r: "reports_rtt e (lstrip l) mn av mx" and o: "0 \<le> mn" "mn \<le> av" "av \<le> mx"
    by blast
  show ?thesis
  proof (cases "is_windows e")
    case w: True
    with r obtain a b c i j k trail where
      tok: "lstrip l = windows_rtt_line a c b @ trail" and tr: "\<forall>ch \<in> set trail. isspace ch"
      and pl: "plain a" "plain b" "plain c"
      and v: "py_int a = Inr i" "py_int b = Inr j" "py_int c = Inr k"
      and q: "mn = of_int i" "av = of_int j" "mx = of_int k"
      unfolding reports_rtt_def by auto
    have "windows_rtt (lstrip l) = Inr [i, k, j]"
      unfolding tok windows_rtt_format [OF pl tr] v bind_err_Inr ..
    with step True w have "r2 = r1\<lparr>rtt := [i, k, j]\<rparr>"
      by (simp add: ping_line_def Let_def bind_err_Inr)
    with o q show ?thesis by simp
  next
    case x: False
    with r obtain a b c d rest where
      tok: "lstrip l = linux_rtt_line a b c d @ rest"
      and pl: "plain a" "plain b" "plain c" "plain d"
      and v: "py_float e a = Inr mn" "py_float e b = Inr av" "py_float e c = Inr mx"
      unfolding reports_rtt_def by auto
    have "linux_rtt e (lstrip l) = Inr [int_of_float mn, int_of_float mx, int_of_float av]"
      unfolding tok linux_rtt_format [OF pl] v bind_err_Inr ..
    with step True x have "r2 = r1\<lparr>rtt := [int_of_float mn, int_of_float mx, int_of_float av]\<rparr>"
      by (simp add: ping_line_def Let_def bind_err_Inr)
    with o show ?thesis
      by (simp add: int_of_float_mono int_of_float_nonneg)
  qed
qed


lemma linux_box_fields: "is_windows linux_box = False" "py_float linux_box = decimal"
  by (simp_all add: linux_box_def)

lemma windows_box_fields: "is_windows windows_box = True"
  by (simp add: windows_box_def)

subsection \<open>Dictionaries\<close>

lemma keys_setitem:
  "keys (setitem d k v) = (if k \<in> set (keys d) then keys d else keys d @ [k])"
  by (induction d) (auto simp: setitem_def keys_def)

lemma fromkeys_snoc: "fromkeys (ks @ [k]) v = setitem (fromkeys ks v) k v"
  by (simp add: fromkeys_def)

lemma keys_fromkeys: "keys (fromkeys ks v) = rev (remdups (rev ks))"
proof (induction ks rule: rev_induct)
  case Nil
  show ?case by (simp add: fromkeys_def keys_def)
next
  case (snoc k ks)
  then show ?case by (simp add: fromkeys_snoc keys_setitem)
qed

lemma map_of_rebind:
  "map_of (map (\<lambda>(k', v'). if k' = k then (k', v) else (k', v')) d) x =
     (if x = k then (if k \<in> fst ` set d then Some v else None) else map_of d x)"
  by (induction d) force+

lemma getitem_setitem:
  "getitem (setitem d k v) k' = (if k' = k then Some v else getitem d k')"
proof (cases "k \<in> set (keys d)")
  case True
  then show ?thesis
    by (simp add: setitem_def getitem_def map_of_rebind keys_def)
next
  case False
  then have "map_of d k = None"
    by (simp add: keys_def map_of_eq_None_iff)
  with False show ?thesis
    by (auto simp: setitem_def getitem_def map_add_def split: option.splits)
qed

lemma getitem_fromkeys:
  "getitem (fromkeys ks v) k = (if k \<in> set ks then Some v else None)"
proof (induction ks rule: rev_induct)
  case Nil
  show ?case by (simp add: fromkeys_def getitem_def)
next
  case (snoc x ks)
  then show ?case by (simp add: fromkeys_snoc getitem_setitem)
qed

lemma getitem_distinct: "distinct (keys d) \<Longrightarrow> (k, a) \<in> set d \<Longrightarrow> getitem d k = Some a"
  by (simp add: getitem_def keys_def)

subsection \<open>Runs of the pool\<close>

lemma ping_it_config:
  "num_requests p = num_requests p' \<Longrightarrow> request_timeout p = request_timeout p' \<Longrightarrow>
   ping_it e p t = ping_it e p' t"
  by (simp add: ping_it_def ping_cmd_def)

lemma exec_append:
  "exec e w (evs1 @ evs2) s =
     (case exec e w evs1 s of None \<Rightarrow> None | Some s' \<Rightarrow> exec e w evs2 s')"
  by (induction evs1 arbitrary: s) (auto split: option.splits)

lemma pool_inv_submitted: "wf_pinger p0 \<Longrightarrow> pool_inv e p0 (submitted p0)"
  by (auto simp: pool_inv_def submitted_def wf_pinger_def) (meson leD)

lemma capture_target_unfold:
  "capture_target e t p =
     (case ping_it e p t of
        Inl ex \<Rightarrow> Inl ex
      | Inr r \<Rightarrow> Inr (p\<lparr>heap := heap p @ [r],
                        target_dict := setitem (target_dict p) t (length (heap p))\<rparr>))"
  by (simp add: capture_target_def bind_err_def)

lemma pool_inv_Start:
  assumes "pool_inv e p0 s" and "step e w Start s = Some s'"
  shows "pool_inv e p0 s'"
  using assms by (auto simp: pool_inv_def split: list.splits if_splits)

lemma pool_inv_Finish_raise:
  assumes inv: "pool_inv e p0 s" and t: "t \<in> set (running s)"
    and raise: "ping_it e (pinger s) t = Inl ex"
  shows "pool_inv e p0 (s\<lparr>running := remove1 t (running s)\<rparr>)"
proof -
  have cfg: "ping_it e p0 t = Inl ex"
    using inv raise ping_it_config [of "pinger s" p0 e t] by (simp add: pool_inv_def)
  have dist: "distinct (queue s @ running s)"
    using inv by (simp add: pool_inv_def)
  have same: "getitem (target_dict (pinger s)) t = getitem (target_dict p0) t"
    using inv t by (simp add: pool_inv_def)
  have "done_entry e p0 (pinger s) t"
    using cfg same by (simp add: done_entry_def)
  moreover have "set (queue s @ remove1 t (running s)) = set (queue s @ running s) - {t}"
    using dist t by auto
  ultimately show ?thesis
    using inv dist by (auto simp: pool_inv_def)
qed

lemma pool_inv_Finish_return:
  assumes inv: "pool_inv e p0 s" and t: "t \<in> set (running s)"
    and ret: "ping_it e (pinger s) t = Inr r"
  shows "pool_inv e p0
           (s\<lparr>running := remove1 t (running s),
              pinger := (pinger s)\<lparr>heap := heap (pinger s) @ [r],
                 target_dict := setitem (target_dict (pinger s)) t (length (heap (pinger s)))\<rparr>\<rparr>)"
    (is "pool_inv e p0 ?s'")
proof -
  let ?p = "pinger s" and ?d = "target_dict (pinger s)" and ?h = "heap (pinger s)"
  have cfg: "ping_it e p0 t = Inr r"
    using inv ret ping_it_config [of "pinger s" p0 e t] by (simp add: pool_inv_def)
  have dist: "distinct (queue s @ running s)"
    using inv by (simp add: pool_inv_def)
  have pend: "set (queue s @ remove1 t (running s)) = set (queue s @ running s) - {t}"
    using dist t by auto
  have tkey: "t \<in> set (keys ?d)"
    using inv t by (auto simp: pool_inv_def)
  have pre: "take (length (heap p0)) ?h = heap p0"
    using inv by (simp add: pool_inv_def)
  then have "length (take (length (heap p0)) ?h) = length (heap p0)"
    by (rule arg_cong)
  then have len: "length (heap p0) \<le> length ?h"
    by simp
  have bound: "\<And>x a. getitem ?d x = Some a \<Longrightarrow> a < length ?h"
    using inv by (simp add: pool_inv_def)
  have inj: "\<And>x y a. getitem ?d x = Some a \<Longrightarrow> getitem ?d y = Some a \<Longrightarrow>
                length (heap p0) \<le> a \<Longrightarrow> x = y"
    using inv unfolding pool_inv_def by blast
  have same: "\<And>x. x \<in> set (queue s @ running s) \<Longrightarrow> getitem ?d x = getitem (target_dict p0) x"
    using inv by (simp add: pool_inv_def)
  have dne: "\<And>x. x \<in> set (keys (target_dict p0)) \<Longrightarrow> x \<notin> set (queue s @ running s) \<Longrightarrow>
                done_entry e p0 ?p x"
    using inv by (simp add: pool_inv_def)
  have c1: "keys (target_dict (pinger ?s')) = keys (target_dict p0)"
    using inv tkey by (simp add: pool_inv_def keys_setitem)
  have c2: "distinct (queue ?s' @ running ?s')"
    using dist by auto
  have c3: "set (queue ?s' @ running ?s') \<subseteq> set (keys (target_dict p0))"
    using inv pend by (auto simp: pool_inv_def)
  have c4: "num_requests (pinger ?s') = num_requests p0 \<and>
            request_timeout (pinger ?s') = request_timeout p0"
    using inv by (simp add: pool_inv_def)
  have c5: "take (length (heap p0)) (heap (pinger ?s')) = heap p0"
    using pre len by simp
  have c6: "\<forall>x a. getitem (target_dict (pinger ?s')) x = Some a \<longrightarrow>
              a < length (heap (pinger ?s'))"
    using bound by (auto simp: getitem_setitem less_Suc_eq split: if_splits)
  have c7: "\<forall>x y a. getitem (target_dict (pinger ?s')) x = Some a \<and>
              getitem (target_dict (pinger ?s')) y = Some a \<and> length (heap p0) \<le> a \<longrightarrow> x = y"
  proof (intro allI impI)
    fix x y a
    assume h: "getitem (target_dict (pinger ?s')) x = Some a \<and>
               getitem (target_dict (pinger ?s')) y = Some a \<and> length (heap p0) \<le> a"
    show "x = y"
    proof (cases "x = t")
      case True
      with h have "a = length ?h" by (simp add: getitem_setitem)
      with h bound [of y a] True show ?thesis
        by (auto simp: getitem_setitem split: if_splits)
    next
      case False
      with h have gx: "getitem ?d x = Some a" by (simp add: getitem_setitem)
      with bound have "a < length ?h" by blast
      with h have "y \<noteq> t" by (auto simp: getitem_setitem)
      with h have "getitem ?d y = Some a" by (simp add: getitem_setitem)
      with gx h inj show ?thesis by blast
    qed
  qed
  have c8: "\<forall>x \<in> set (queue ?s' @ running ?s').
              getitem (target_dict (pinger ?s')) x = getitem (target_dict p0) x"
    using same pend by (auto simp: getitem_setitem)
  have c9: "\<forall>x \<in> set (keys (target_dict p0)) - set (queue ?s' @ running ?s').
              done_entry e p0 (pinger ?s') x"
  proof
    fix x
    assume x: "x \<in> set (keys (target_dict p0)) - set (queue ?s' @ running ?s')"
    show "done_entry e p0 (pinger ?s') x"
    proof (cases "x = t")
      case True
      then show ?thesis
        using cfg len by (simp add: done_entry_def getitem_setitem)
    next
      case False
      with x pend have old: "done_entry e p0 ?p x"
        using dne by auto
      show ?thesis
      proof (cases "ping_it e p0 x")
        case (Inl ex)
        with old False show ?thesis
          by (simp add: done_entry_def getitem_setitem)
      next
        case (Inr rx)
        with old obtain a where a: "getitem ?d x = Some a" "length (heap p0) \<le> a"
            "a < length ?h" "?h ! a = rx"
          by (auto simp: done_entry_def)
        with Inr False show ?thesis
          by (simp add: done_entry_def getitem_setitem nth_append)
      qed
    qed
  qed
  show ?thesis
    unfolding pool_inv_def using c1 c2 c3 c4 c5 c6 c7 c8 c9 by blast
qed

lemma pool_inv_step:
  assumes "pool_inv e p0 s" and "step e w ev s = Some s'"
  shows "pool_inv e p0 s'"
proof (cases ev)
  case Start
  with assms show ?thesis by (simp add: pool_inv_Start)
next
  case (Finish t)
  with assms have t: "t \<in> set (running s)"
    by (simp split: if_splits)
  show ?thesis
  proof (cases "ping_it e (pinger s) t")
    case (Inl ex)
    with assms Finish t have "s' = s\<lparr>running := remove1 t (running s)\<rparr>"
      by (simp add: capture_target_unfold)
    with pool_inv_Finish_raise [OF assms(1) t Inl] show ?thesis by simp
  next
    case (Inr r)
    with assms Finish t pool_inv_Finish_return [OF assms(1) t Inr] show ?thesis
      by (auto simp: capture_target_unfold)
  qed
qed

lemma pool_inv_exec:
  "pool_inv e p0 s \<Longrightarrow> exec e w evs s = Some s' \<Longrightarrow> pool_inv e p0 s'"
  by (induction evs arbitrary: s) (auto split: option.splits dest: pool_inv_step)

lemma Suc_length_remove1: "x \<in> set xs \<Longrightarrow> Suc (length (remove1 x xs)) = length xs"
  by (induction xs) auto

lemma step_measure:
  "step e w ev s = Some s' \<Longrightarrow>
   Suc (2 * length (queue s') + length (running s')) = 2 * length (queue s) + length (running s)"
  by (cases ev)
     (auto simp: Suc_length_remove1 split: list.splits if_splits)

lemma exec_measure:
  "exec e w evs s = Some s' \<Longrightarrow>
   length evs + 2 * length (queue s') + length (running s') =
     2 * length (queue s) + length (running s)"
proof (induction evs arbitrary: s)
  case Nil
  then show ?case by simp
next
  case (Cons ev evs)
  then obtain s1 where s1: "step e w ev s = Some s1" "exec e w evs s1 = Some s'"
    by (auto split: option.splits)
  from Cons.IH [OF s1(2)] step_measure [OF s1(1)] show ?case by simp
qed

lemma finish_all:
  "running s = ts \<Longrightarrow>
   \<exists>s'. exec e w (map Finish ts) s = Some s' \<and> running s' = [] \<and> queue s' = queue s"
proof (induction ts arbitrary: s)
  case Nil
  then show ?case by simp
next
  case (Cons t ts)
  let ?s1 = "s\<lparr>running := remove1 t (running s),
               pinger := (case capture_target e t (pinger s) of
                            Inl ex \<Rightarrow> pinger s | Inr p' \<Rightarrow> p')\<rparr>"
  from Cons.prems have st: "step e w (Finish t) s = Some ?s1" by simp
  from Cons.prems have "running ?s1 = ts" by simp
  from Cons.IH [OF this] obtain s' where
    "exec e w (map Finish ts) ?s1 = Some s'" "running s' = []" "queue s' = queue ?s1"
    by blast
  with st show ?case by simp
qed

lemma drain_queue:
  "running s = [] \<Longrightarrow> 0 < w \<Longrightarrow> queue s = ts \<Longrightarrow>
   \<exists>s'. exec e w (concat (map (\<lambda>t. [Start, Finish t]) ts)) s = Some s' \<and> idle s'"
proof (induction ts arbitrary: s)
  case Nil
  then show ?case by (simp add: idle_def)
next
  case (Cons t ts)
  let ?s1 = "s\<lparr>queue := ts, running := [t]\<rparr>"
  let ?s2 = "?s1\<lparr>running := [],
               pinger := (case capture_target e t (pinger s) of
                            Inl ex \<Rightarrow> pinger s | Inr p' \<Rightarrow> p')\<rparr>"
  from Cons.prems have st1: "step e w Start s = Some ?s1" by simp
  have st2: "step e w (Finish t) ?s1 = Some ?s2" by (simp cong: sum.case_cong)
  have "running ?s2 = []" "queue ?s2 = ts" by simp_all
  from Cons.IH [OF this(1) Cons.prems(2) this(2)] obtain s' where
    "exec e w (concat (map (\<lambda>t. [Start, Finish t]) ts)) ?s2 = Some s'" "idle s'"
    by blast
  with st1 st2 show ?case by simp
qed

lemma can_complete:
  assumes "0 < w"
  shows "\<exists>evs' s'. exec e w evs' s = Some s' \<and> idle s'"
proof -
  from finish_all [OF refl, of e w s] obtain s1 where
    s1: "exec e w (map Finish (running s)) s = Some s1" "running s1 = []"
    by blast
  from drain_queue [OF s1(2) assms refl, of e] obtain s2 where
    s2: "exec e w (concat (map (\<lambda>t. [Start, Finish t]) (queue s1))) s1 = Some s2" "idle s2"
    by blast
  from s1 s2 have
    "exec e w (map Finish (running s) @ concat (map (\<lambda>t. [Start, Finish t]) (queue s1))) s = Some s2"
    by (simp add: exec_append)
  with s2 show ?thesis by blast
qed





lemma idle_items:
  assumes inv: "pool_inv e p0 s" and idle: "idle s"
    and h0: "heap p0 = [new_PingResult]"
    and d0: "\<forall>t \<in> set (keys (target_dict p0)). getitem (target_dict p0) t = Some 0"
    and dist: "distinct (keys (target_dict p0))"
  shows "results_items (pinger s) = map (\<lambda>t. (t, outcome e p0 t)) (keys (target_dict p0))"
proof -
  let ?d = "target_dict (pinger s)" and ?h = "heap (pinger s)"
  have k: "keys ?d = keys (target_dict p0)"
    using inv by (simp add: pool_inv_def)
  have pre: "take (length (heap p0)) ?h = heap p0"
    using inv by (simp add: pool_inv_def)
  have zero: "?h ! 0 = new_PingResult"
  proof -
    have "take 1 ?h = [new_PingResult]" using pre h0 by simp
    then show ?thesis by (cases ?h) auto
  qed
  have each: "(x, ?h ! a) = (x, outcome e p0 x)" if xa: "(x, a) \<in> set ?d" for x a
  proof -
    from xa have "x \<in> set (keys ?d)"
      by (force simp: keys_def)
    with k have xk: "x \<in> set (keys (target_dict p0))"
      by simp
    from xa dist k have g: "getitem ?d x = Some a"
      by (simp add: getitem_distinct)
    from inv idle xk have dn: "done_entry e p0 (pinger s) x"
      by (simp add: pool_inv_def idle_def)
    show ?thesis
    proof (cases "ping_it e p0 x")
      case (Inl ex)
      with dn g d0 xk have "a = 0" by (simp add: done_entry_def)
      with zero Inl show ?thesis by (simp add: outcome_def)
    next
      case (Inr r)
      with dn g show ?thesis by (auto simp: done_entry_def outcome_def)
    qed
  qed
  have "results_items (pinger s) = map (\<lambda>(x, a). (x, outcome e p0 x)) ?d"
    unfolding results_items_def using each by (intro map_cong) auto
  also have "\<dots> = map (\<lambda>t. (t, outcome e p0 t)) (keys ?d)"
    by (simp add: keys_def case_prod_unfold comp_def)
  finally show ?thesis using k by simp
qed

lemma main_setup_dict: "target_dict (main_setup e hs c v) = fromkeys hs 0"
  by (simp add: main_setup_def set_request_timeout_def set_num_requests_def Pinger_init_def)

lemma main_setup_heap: "heap (main_setup e hs c v) = [new_PingResult]"
  by (simp add: main_setup_def set_request_timeout_def set_num_requests_def Pinger_init_def)

lemma wf_main_setup: "wf_pinger ((main_setup e hs c v)\<lparr>start_time := Some n\<rparr>)"
  using keys_fromkeys [of hs 0]
  by (simp add: wf_pinger_def main_setup_dict main_setup_heap getitem_fromkeys)

lemma ping_targets_Some:
  "ping_targets e n0 n1 evs p = Inr (Some p') \<longleftrightarrow>
     (target_dict p \<noteq> [] \<and>
      (\<exists>s. exec e (nat (min MAX_THREADS (int (length (target_dict p))))) evs
              (submitted (p\<lparr>start_time := Some n0\<rparr>)) = Some s \<and>
           idle s \<and> p' = (pinger s)\<lparr>end_time := Some n1\<rparr>))"
proof -
  have w: "min MAX_THREADS (int (length (target_dict p))) \<le> 0 \<longleftrightarrow> target_dict p = []"
    by (auto simp: MAX_THREADS_def min_def)
  show ?thesis
    by (auto simp: ping_targets_def Let_def w split: option.splits)
qed

lemma outcome_config:
  "outcome e (p\<lparr>start_time := x\<rparr>) t = outcome e p t"
  using ping_it_config [of "p\<lparr>start_time := x\<rparr>" p e t] by (simp add: outcome_def)

lemma results_items_end_time: "results_items (p\<lparr>end_time := x\<rparr>) = results_items p"
  by (simp add: results_items_def)

lemma ping_targets_items:
  assumes "ping_targets e n0 n1 evs (main_setup e hs c v) = Inr (Some p')"
  shows "results_items p' =
           map (\<lambda>t. (t, outcome e (main_setup e hs c v) t)) (rev (remdups (rev hs)))"
proof -
  let ?p = "main_setup e hs c v"
  let ?q = "?p\<lparr>start_time := Some n0\<rparr>"
  from assms obtain s where
    s: "exec e (nat (min MAX_THREADS (int (length (target_dict ?p))))) evs (submitted ?q) = Some s"
      "idle s" "p' = (pinger s)\<lparr>end_time := Some n1\<rparr>"
    by (auto simp: ping_targets_Some)
  have inv: "pool_inv e ?q s"
    using pool_inv_exec [OF pool_inv_submitted [OF wf_main_setup] s(1)] .
  have k: "keys (target_dict ?q) = rev (remdups (rev hs))"
    by (simp add: main_setup_dict keys_fromkeys)
  have "results_items (pinger s) = map (\<lambda>t. (t, outcome e ?q t)) (keys (target_dict ?q))"
  proof (rule idle_items [OF inv s(2)])
    show "heap ?q = [new_PingResult]" by (simp add: main_setup_heap)
    show "\<forall>t\<in>set (keys (target_dict ?q)). getitem (target_dict ?q) t = Some 0"
      using k by (simp add: main_setup_dict getitem_fromkeys)
    show "distinct (keys (target_dict ?q))" using k by simp
  qed
  with k s(3) show ?thesis
    by (simp add: results_items_end_time outcome_config)
qed

lemma ping_targets_completes:
  assumes hs: "hs \<noteq> []"
    and ex: "exec e (nat (min MAX_THREADS (int (length (target_dict (main_setup e hs c v))))))
               evs (submitted ((main_setup e hs c v)\<lparr>start_time := Some n0\<rparr>)) = Some s"
  shows "\<exists>evs' p'. ping_targets e n0 n1 (evs @ evs') (main_setup e hs c v) = Inr (Some p')"
proof -
  let ?p = "main_setup e hs c v"
  let ?w = "nat (min MAX_THREADS (int (length (target_dict ?p))))"
  have "keys (target_dict ?p) \<noteq> []"
    using hs by (simp add: main_setup_dict keys_fromkeys)
  then have ne: "target_dict ?p \<noteq> []" by (auto simp: keys_def)
  then have "0 < ?w" by (simp add: MAX_THREADS_def)
  from can_complete [OF this, of e s] obtain evs' s' where
    "exec e ?w evs' s = Some s'" "idle s'" by blast
  with ex have "exec e ?w (evs @ evs') (submitted (?p\<lparr>start_time := Some n0\<rparr>)) = Some s'"
    by (simp add: exec_append)
  with ne \<open>idle s'\<close> have
    "ping_targets e n0 n1 (evs @ evs') ?p = Inr (Some ((pinger s')\<lparr>end_time := Some n1\<rparr>))"
    by (auto simp: ping_targets_Some)
  then show ?thesis by blast
qed

lemma fst_results_items: "map fst (results_items p) = keys (target_dict p)"
  by (simp add: results_items_def keys_def case_prod_unfold comp_def)

lemma ping_targets_keys:
  assumes "ping_targets e n0 n1 evs (main_setup e hs c v) = Inr (Some p')"
  shows "keys (target_dict p') = rev (remdups (rev hs))"
  using ping_targets_items [OF assms] fst_results_items [of p']
  by (simp add: comp_def)



subsection \<open>Three observations on the code\<close>

text \<open>
  On Linux the third counter is the percentage of the summary line, not a number of
  packets: two packets lost out of four are stored as 50.
\<close>

lemma linux_lost_is_percentage:
  "linux_packets ''4 packets transmitted, 2 received, 50% packet loss, time 3004ms''
     = Inr [4, 2, 50]"
  by code_simp

text \<open>
  An error stream of white space only is not empty, so the return code is not put in its
  place, and it is stripped to the empty string: the error of the result is empty although
  the process failed.
\<close>

lemma blank_error_stream:
  assumes "returncode (ping_process e p t) \<noteq> 0"
    and "p_stdout (ping_process e p t) = Inr out"
    and "p_stderr (ping_process e p t) = Inr [CHR 0x0A]"
  shows "ping_it e p t = Inr new_PingResult"
proof -
  have "strip [CHR 0x0A] = []"
    by code_simp
  with ping_it_failed [OF assms] show ?thesis
    by (simp add: new_PingResult_def)
qed

text \<open>
  Without a target there is no worker, and \<^verbatim>\<open>ThreadPoolExecutor\<close> refuses a pool of no
  workers: \<^verbatim>\<open>ping_targets\<close> raises.
\<close>

lemma ping_targets_no_target:
  "ping_targets e now0 now1 evs (main_setup e [] count wait) = Inl ValueError"
  by (simp add: ping_targets_def main_setup_dict fromkeys_def MAX_THREADS_def)

subsection \<open>The two settings and the constructor\<close>

text \<open>
  Claim C8. Assigning \<open>count\<close> to \<^verbatim>\<open>num_requests\<close>: a value below 1 or above 100 sets
  the default 4 (it is not clamped to 1 or 100), and every value from 1 to 100, both
  bounds included, is stored as it is. No other field changes.
\<close>

theorem num_requests_setter:
  "(count < 1 \<or> 100 < count \<longrightarrow> set_num_requests count p = p\<lparr>num_requests := 4\<rparr>) \<and>
   (1 \<le> count \<and> count \<le> 100 \<longrightarrow> set_num_requests count p = p\<lparr>num_requests := count\<rparr>)"
  by (simp add: set_num_requests_def NUM_REQUESTS_def)

theorem num_requests_setter_witness:
  "((0::int) < 1 \<and> num_requests (set_num_requests 0 (Pinger_init linux_box (Str ''up''))) = 4) \<and>
   ((- 5::int) < 1 \<and> num_requests (set_num_requests (- 5) (Pinger_init linux_box (Str ''up''))) = 4) \<and>
   ((100::int) < 101 \<and> num_requests (set_num_requests 101 (Pinger_init linux_box (Str ''up''))) = 4) \<and>
   ((1::int) \<le> 1 \<and> num_requests (set_num_requests 1 (Pinger_init linux_box (Str ''up''))) = 1) \<and>
   ((100::int) \<le> 100 \<and>
      num_requests (set_num_requests 100 (Pinger_init linux_box (Str ''up''))) = 100)"
  using num_requests_setter [of 0 "Pinger_init linux_box (Str ''up'')"]
    num_requests_setter [of "- 5" "Pinger_init linux_box (Str ''up'')"]
    num_requests_setter [of 101 "Pinger_init linux_box (Str ''up'')"]
    num_requests_setter [of 1 "Pinger_init linux_box (Str ''up'')"]
    num_requests_setter [of 100 "Pinger_init linux_box (Str ''up'')"]
  by simp

text \<open>
  Claim C9. Assigning \<open>v\<close> to \<^verbatim>\<open>request_timeout\<close>: a negative value sets the default of
  the platform (2000 on Windows, 2 elsewhere), and 0 and every positive value are stored as
  they are. No other field changes.
\<close>

theorem request_timeout_setter:
  "(v < 0 \<longrightarrow>
      set_request_timeout e v p = p\<lparr>request_timeout := (if is_windows e then 2000 else 2)\<rparr>) \<and>
   (0 \<le> v \<longrightarrow> set_request_timeout e v p = p\<lparr>request_timeout := v\<rparr>)"
  by (simp add: set_request_timeout_def REQUEST_TIMEOUT_WINDOWS_def REQUEST_TIMEOUT_LINUX_def)

theorem request_timeout_setter_witness:
  "((- 1::int) < 0 \<and>
      request_timeout (set_request_timeout linux_box (- 1) (Pinger_init linux_box (Str ''up''))) = 2) \<and>
   ((- 1::int) < 0 \<and>
      request_timeout (set_request_timeout windows_box (- 1) (Pinger_init windows_box (Str ''up'')))
        = 2000) \<and>
   ((0::int) \<le> 0 \<and>
      request_timeout (set_request_timeout linux_box 0 (Pinger_init linux_box (Str ''up''))) = 0) \<and>
   ((0::int) \<le> 7 \<and>
      request_timeout (set_request_timeout windows_box 7 (Pinger_init windows_box (Str ''up''))) = 7)"
  using request_timeout_setter [of "- 1" linux_box "Pinger_init linux_box (Str ''up'')"]
    request_timeout_setter [of "- 1" windows_box "Pinger_init windows_box (Str ''up'')"]
    request_timeout_setter [of 0 linux_box "Pinger_init linux_box (Str ''up'')"]
    request_timeout_setter [of 7 windows_box "Pinger_init windows_box (Str ''up'')"]
  by (simp add: windows_box_def linux_box_def)

text \<open>
  Claim C10. The constructor applied to one host name \<open>s\<close> gives the same \<^verbatim>\<open>Pinger\<close>, in
  every field and in its heap, as the constructor applied to the list holding just \<open>s\<close>.
\<close>

theorem Pinger_init_str_is_singleton_list:
  "Pinger_init e (Str s) = Pinger_init e (List [s])"
  by (simp add: Pinger_init_def)

subsection \<open>The result map after a run\<close>

text \<open>
  Claim C3, as stated, fails: the result map has one entry per input target only when the
  targets are pairwise distinct. For the two targets \<^verbatim>\<open>up\<close>, \<^verbatim>\<open>up\<close> the worker bound is
  1, below the number 2 of targets, and the run ends with a map of one entry.
\<close>

theorem one_entry_per_target_counterexample:
  "map_option (length \<circ> target_dict)
     (projr (ping_targets linux_box 0 1 [Start, Finish ''up'']
               (main_setup linux_box [''up'', ''up''] 4 2))) = Some 1 \<and>
   length [''up'', ''up''] = (2::nat) \<and>
   min MAX_THREADS (int (length (target_dict (main_setup linux_box [''up'', ''up''] 4 2)))) = 1"
  by code_simp

text \<open>
  Claim C3, amended. For every list of targets and every schedule of the pool, a run that
  ends leaves a result map whose keys are the distinct input targets, each once, in the
  order of their first occurrence: no key is missing and none is doubled, and the map has
  as many entries as there are distinct targets (as many as the list is long exactly when
  no target is repeated). For a list that is not empty the run does end whatever the
  threads do: however a run has begun, it has taken at most two events per target and can
  be continued to its end.
\<close>

theorem one_entry_per_distinct_target:
  "(ping_targets e now0 now1 evs (main_setup e host_list count wait) = Inr (Some p') \<longrightarrow>
      keys (target_dict p') = rev (remdups (rev host_list)) \<and>
      distinct (keys (target_dict p')) \<and>
      set (keys (target_dict p')) = set host_list \<and>
      length (target_dict p') = card (set host_list) \<and>
      (distinct host_list \<longrightarrow> length (target_dict p') = length host_list)) \<and>
   (host_list \<noteq> [] \<and>
    exec e (nat (min MAX_THREADS (int (length (target_dict (main_setup e host_list count wait))))))
      begun (submitted ((main_setup e host_list count wait)\<lparr>start_time := Some now0\<rparr>)) = Some s \<longrightarrow>
      length begun \<le> 2 * length host_list \<and>
      (\<exists>rest p'. ping_targets e now0 now1 (begun @ rest) (main_setup e host_list count wait)
                    = Inr (Some p')))"
proof (intro conjI impI)
  assume run: "ping_targets e now0 now1 evs (main_setup e host_list count wait) = Inr (Some p')"
  have k: "keys (target_dict p') = rev (remdups (rev host_list))"
    by (rule ping_targets_keys [OF run])
  show "keys (target_dict p') = rev (remdups (rev host_list))" by (rule k)
  show "distinct (keys (target_dict p'))" by (simp add: k)
  show "set (keys (target_dict p')) = set host_list" by (simp add: k)
  have len: "length (target_dict p') = length (keys (target_dict p'))"
    by (simp add: keys_def)
  have "length (remdups (rev host_list)) = card (set (rev host_list))"
    by (rule length_remdups_card_conv)
  then show "length (target_dict p') = card (set host_list)"
    by (simp add: len k)
  assume "distinct host_list"
  then have "length (remdups (rev host_list)) = length host_list"
    by (simp add: distinct_remdups_id)
  then show "length (target_dict p') = length host_list"
    by (simp add: len k)
next
  assume h: "host_list \<noteq> [] \<and>
    exec e (nat (min MAX_THREADS (int (length (target_dict (main_setup e host_list count wait))))))
      begun (submitted ((main_setup e host_list count wait)\<lparr>start_time := Some now0\<rparr>)) = Some s"
  from exec_measure [of e _ begun _ s] h
  have "length begun \<le> 2 * length (keys (fromkeys host_list 0))"
    by (fastforce simp: submitted_def main_setup_dict)
  also have "\<dots> \<le> 2 * length host_list"
    using length_remdups_leq [of "rev host_list"] by (simp add: keys_fromkeys)
  finally show "length begun \<le> 2 * length host_list" .
  from h ping_targets_completes [of host_list e count wait begun now0 s now1]
  show "\<exists>rest p'. ping_targets e now0 now1 (begun @ rest) (main_setup e host_list count wait)
                    = Inr (Some p')"
    by blast
qed

theorem one_entry_per_distinct_target_witness:
  "(\<exists>p'. ping_targets linux_box 0 1
            [Start, Start, Finish ''down'', Start, Finish ''mute'', Finish ''up'']
            (main_setup linux_box [''up'', ''down'', ''mute''] 4 2) = Inr (Some p') \<and>
         distinct [''up'', ''down'', ''mute''] \<and>
         keys (target_dict p') = [''up'', ''down'', ''mute''] \<and>
         length (target_dict p') = 3) \<and>
   [''up'', ''down'', ''mute''] \<noteq> [] \<and>
   (\<exists>s. exec linux_box 3 [Start, Start, Finish ''down'']
           (submitted ((main_setup linux_box [''up'', ''down'', ''mute''] 4 2)
                         \<lparr>start_time := Some 0\<rparr>)) = Some s) \<and>
   (\<exists>evs' p'. ping_targets linux_box 0 1 ([Start, Start, Finish ''down''] @ evs')
                 (main_setup linux_box [''up'', ''down'', ''mute''] 4 2) = Inr (Some p'))"
proof -
  let ?p = "main_setup linux_box [''up'', ''down'', ''mute''] 4 2"
  have "case ping_targets linux_box 0 1
               [Start, Start, Finish ''down'', Start, Finish ''mute'', Finish ''up''] ?p of
          Inr (Some p') \<Rightarrow> True | _ \<Rightarrow> False"
    by code_simp
  then obtain p' where run: "ping_targets linux_box 0 1
      [Start, Start, Finish ''down'', Start, Finish ''mute'', Finish ''up''] ?p = Inr (Some p')"
    by (auto split: sum.splits option.splits)
  have w: "nat (min MAX_THREADS (int (length (target_dict ?p)))) = 3"
    by code_simp
  have "case exec linux_box 3 [Start, Start, Finish ''down'']
               (submitted (?p\<lparr>start_time := Some 0\<rparr>)) of
          Some s \<Rightarrow> True | None \<Rightarrow> False"
    by code_simp
  then obtain s where part: "exec linux_box 3 [Start, Start, Finish ''down'']
      (submitted (?p\<lparr>start_time := Some 0\<rparr>)) = Some s"
    by (auto split: option.splits)
  from one_entry_per_distinct_target
         [of linux_box 0 1 "[Start, Start, Finish ''down'', Start, Finish ''mute'', Finish ''up'']"
             "[''up'', ''down'', ''mute'']" 4 2 p' "[Start, Start, Finish ''down'']" s]
    run part w
  show ?thesis by simp
qed

text \<open>
  Claim C7. The list of pairs of target and result that \<^verbatim>\<open>output_text\<close> and
  \<^verbatim>\<open>output_csv\<close> walk through after a run has the targets in the order of the input
  list (a repeated target stands where it came first; the list of targets is the input list
  itself when no target is repeated). Two runs on the same input that end give the same
  list of pairs, whatever the order in which their calls ended.
\<close>

theorem results_in_input_order:
  "ping_targets e now0 now1 evs (main_setup e host_list count wait) = Inr (Some p') \<longrightarrow>
     map fst (results_items p') = rev (remdups (rev host_list)) \<and>
     (distinct host_list \<longrightarrow> map fst (results_items p') = host_list) \<and>
     (ping_targets e now2 now3 evs' (main_setup e host_list count wait) = Inr (Some p'') \<longrightarrow>
        results_items p'' = results_items p')"
proof (intro impI conjI)
  assume run: "ping_targets e now0 now1 evs (main_setup e host_list count wait) = Inr (Some p')"
  show k: "map fst (results_items p') = rev (remdups (rev host_list))"
    using ping_targets_keys [OF run] by (simp add: fst_results_items)
  show "map fst (results_items p') = host_list" if "distinct host_list"
  proof -
    from that have "rev (remdups (rev host_list)) = rev (rev host_list)"
      by (simp add: distinct_remdups_id)
    with k show ?thesis by simp
  qed
  assume "ping_targets e now2 now3 evs' (main_setup e host_list count wait) = Inr (Some p'')"
  from ping_targets_items [OF this] ping_targets_items [OF run]
  show "results_items p'' = results_items p'" by simp
qed

theorem results_in_input_order_witness:
  "\<exists>p' p''.
     ping_targets linux_box 0 1 [Start, Start, Start, Finish ''mute'', Finish ''down'', Finish ''up'']
       (main_setup linux_box [''up'', ''down'', ''mute''] 4 2) = Inr (Some p') \<and>
     ping_targets linux_box 5 9 [Start, Finish ''up'', Start, Finish ''down'', Start, Finish ''mute'']
       (main_setup linux_box [''up'', ''down'', ''mute''] 4 2) = Inr (Some p'') \<and>
     distinct [''up'', ''down'', ''mute''] \<and>
     map fst (results_items p') = [''up'', ''down'', ''mute''] \<and>
     results_items p'' = results_items p'"
proof -
  let ?p = "main_setup linux_box [''up'', ''down'', ''mute''] 4 2"
  have "case ping_targets linux_box 0 1
               [Start, Start, Start, Finish ''mute'', Finish ''down'', Finish ''up''] ?p of
          Inr (Some p') \<Rightarrow> True | _ \<Rightarrow> False"
    by code_simp
  then obtain p' where r1: "ping_targets linux_box 0 1
      [Start, Start, Start, Finish ''mute'', Finish ''down'', Finish ''up''] ?p = Inr (Some p')"
    by (auto split: sum.splits option.splits)
  have "case ping_targets linux_box 5 9
               [Start, Finish ''up'', Start, Finish ''down'', Start, Finish ''mute''] ?p of
          Inr (Some p') \<Rightarrow> True | _ \<Rightarrow> False"
    by code_simp
  then obtain p'' where r2: "ping_targets linux_box 5 9
      [Start, Finish ''up'', Start, Finish ''down'', Start, Finish ''mute''] ?p = Inr (Some p'')"
    by (auto split: sum.splits option.splits)
  from results_in_input_order
         [of linux_box 0 1 "[Start, Start, Start, Finish ''mute'', Finish ''down'', Finish ''up'']"
             "[''up'', ''down'', ''mute'']" 4 2 p' 5 9
             "[Start, Finish ''up'', Start, Finish ''down'', Start, Finish ''mute'']" p'']
    r1 r2
  show ?thesis by simp
qed

subsection \<open>Who holds which \<^verbatim>\<open>PingResult\<close>\<close>




subsection \<open>What a probe returns\<close>




text \<open>
  Claim C4, as stated, fails: a process that ends with return code 0 and prints no
  statistics gives a result with 0 packets received and an empty error.
\<close>

theorem empty_error_counterexample:
  "ping_it linux_box (main_setup linux_box [''mute''] 4 2) ''mute''
     = Inr \<lparr>packets = [0, 0, 0], rtt = [0, 0, 0], error = []\<rparr>"
  by code_simp

text \<open>
  Claim C4, amended. When the \<^verbatim>\<open>ping\<close> process ends with a return code other than 0,
  both streams decode, and its error stream is empty or has a character that is not white
  space, the probe returns a result with 0 packets received and an error that is not empty:
  the stripped error stream, or the return code in parentheses, followed by
  \<^verbatim>\<open>offline?\<close> for return code 1. When the process ends with return code 0, the error of
  the result is empty, whatever the number of packets received.
\<close>

theorem error_set_when_ping_fails:
  "(returncode (ping_process e p t) \<noteq> 0 \<and>
    p_stdout (ping_process e p t) = Inr out \<and> p_stderr (ping_process e p t) = Inr err \<and>
    (err = [] \<or> strip err \<noteq> []) \<longrightarrow>
      (\<exists>r. ping_it e p t = Inr r \<and> packets r ! 1 = 0 \<and> error r \<noteq> [] \<and>
           error r = (if err = []
                      then ''('' @ str_int (returncode (ping_process e p t)) @ '')'' @
                           (if returncode (ping_process e p t) = 1 then '' offline?'' else [])
                      else strip err))) \<and>
   (returncode (ping_process e p t) = 0 \<and> ping_it e p t = Inr r' \<longrightarrow> error r' = [])"
proof (intro conjI impI)
  assume h: "returncode (ping_process e p t) \<noteq> 0 \<and>
    p_stdout (ping_process e p t) = Inr out \<and> p_stderr (ping_process e p t) = Inr err \<and>
    (err = [] \<or> strip err \<noteq> [])"
  then have "ping_it e p t =
           Inr (new_PingResult\<lparr>error :=
                  (if err = []
                   then ''('' @ str_int (returncode (ping_process e p t)) @ '')'' @
                        (if returncode (ping_process e p t) = 1 then '' offline?'' else [])
                   else strip err)\<rparr>)"
    using ping_it_failed by blast
  with h show "\<exists>r. ping_it e p t = Inr r \<and> packets r ! 1 = 0 \<and> error r \<noteq> [] \<and>
           error r = (if err = []
                      then ''('' @ str_int (returncode (ping_process e p t)) @ '')'' @
                           (if returncode (ping_process e p t) = 1 then '' offline?'' else [])
                      else strip err)"
    by (auto simp: new_PingResult_def)
next
  assume h: "returncode (ping_process e p t) = 0 \<and> ping_it e p t = Inr r'"
  then obtain out err where
    "p_stdout (ping_process e p t) = Inr out" "p_stderr (ping_process e p t) = Inr err"
    using ping_it_decoded by blast
  with h have "ping_lines e new_PingResult (split (CHR 0x0A) out) = Inr r'"
    using ping_it_succeeded by metis
  from ping_lines_error [OF this] show "error r' = []"
    by (simp add: new_PingResult_def)
qed

theorem error_set_when_ping_fails_witness:
  "returncode (ping_process linux_box (main_setup linux_box [''down'', ''up''] 4 2) ''down'') \<noteq> 0 \<and>
   p_stdout (ping_process linux_box (main_setup linux_box [''down'', ''up''] 4 2) ''down'') = Inr [] \<and>
   p_stderr (ping_process linux_box (main_setup linux_box [''down'', ''up''] 4 2) ''down'') = Inr [] \<and>
   (\<exists>r. ping_it linux_box (main_setup linux_box [''down'', ''up''] 4 2) ''down'' = Inr r \<and>
        packets r ! 1 = 0 \<and> error r = ''(1) offline?'') \<and>
   returncode (ping_process linux_box (main_setup linux_box [''down'', ''up''] 4 2) ''up'') = 0 \<and>
   (\<exists>r'. ping_it linux_box (main_setup linux_box [''down'', ''up''] 4 2) ''up'' = Inr r' \<and>
         error r' = [])"
proof -
  let ?p = "main_setup linux_box [''down'', ''up''] 4 2"
  have d: "returncode (ping_process linux_box ?p ''down'') = 1"
    "p_stdout (ping_process linux_box ?p ''down'') = Inr []"
    "p_stderr (ping_process linux_box ?p ''down'') = Inr []"
    "returncode (ping_process linux_box ?p ''up'') = 0"
    by code_simp+
  have s: "''('' @ str_int 1 @ '')'' @ '' offline?'' = ''(1) offline?''"
    by code_simp
  have "case ping_it linux_box ?p ''up'' of Inl ex \<Rightarrow> False | Inr r' \<Rightarrow> True"
    by code_simp
  then obtain r' where r': "ping_it linux_box ?p ''up'' = Inr r'"
    by (auto split: sum.splits)
  from error_set_when_ping_fails
         [where e = linux_box and p = ?p and t = "''down''" and out = "[]" and err = "[]"] d s
  have a: "\<exists>r. ping_it linux_box ?p ''down'' = Inr r \<and> packets r ! 1 = 0 \<and>
              error r = ''(1) offline?''"
    by auto
  from error_set_when_ping_fails [where e = linux_box and p = ?p and t = "''up''" and r' = r'] d r'
  have b: "error r' = []"
    by blast
  from a b d r' show ?thesis by simp
qed

text \<open>
  Claim C6, as stated, fails: the program stores the numbers as printed, so an output that
  reports round-trip times below zero, in the order minimum, average, maximum, gives a
  result with packets received whose round-trip times are negative.
\<close>

theorem rtt_negative_counterexample:
  "ping_it windows_box (main_setup windows_box [''early''] 4 2000) ''early''
     = Inr \<lparr>packets = [4, 4, 0], rtt = [- 3, - 1, - 2], error = []\<rparr> \<and>
   ping_it linux_box (main_setup linux_box [''early''] 4 2) ''early''
     = Inr \<lparr>packets = [0, 0, 0], rtt = [- 3, - 1, - 2], error = []\<rparr>"
  by code_simp

text \<open>
  Claim C6, amended. When every line of the output that the program takes for the line of
  round-trip times is such a line of the platform and reports values with
  0 \<open>\<le>\<close> minimum \<open>\<le>\<close> average \<open>\<le>\<close> maximum, the result of a probe has
  0 \<open>\<le>\<close> rttMin \<open>\<le>\<close> rttAvg \<open>\<le>\<close> rttMax (the list \<open>rtt\<close> holds minimum, maximum,
  average in this order). This holds whatever the number of packets received.
\<close>

theorem rtt_ordered_when_reported_so:
  "ping_it e p t = Inr r \<and> p_stdout (ping_process e p t) = Inr out \<and>
   (\<forall>line \<in> set (split (CHR 0x0A) out).
      (if is_windows e then startswith (lstrip line) ''Minimum''
       else contains (lstrip line) ''rtt min'') \<longrightarrow>
      (\<exists>mn av mx. reports_rtt e (lstrip line) mn av mx \<and> 0 \<le> mn \<and> mn \<le> av \<and> av \<le> mx)) \<longrightarrow>
   0 \<le> rtt r ! 0 \<and> rtt r ! 0 \<le> rtt r ! 2 \<and> rtt r ! 2 \<le> rtt r ! 1"
proof
  assume h: "ping_it e p t = Inr r \<and> p_stdout (ping_process e p t) = Inr out \<and>
   (\<forall>line \<in> set (split (CHR 0x0A) out).
      (if is_windows e then startswith (lstrip line) ''Minimum''
       else contains (lstrip line) ''rtt min'') \<longrightarrow>
      (\<exists>mn av mx. reports_rtt e (lstrip line) mn av mx \<and> 0 \<le> mn \<and> mn \<le> av \<and> av \<le> mx))"
  then obtain err where err: "p_stderr (ping_process e p t) = Inr err"
    using ping_it_decoded by blast
  show "0 \<le> rtt r ! 0 \<and> rtt r ! 0 \<le> rtt r ! 2 \<and> rtt r ! 2 \<le> rtt r ! 1"
  proof (cases "returncode (ping_process e p t) = 0")
    case False
    from ping_it_failed [OF False _ err] h show ?thesis
      by (auto simp: new_PingResult_def)
  next
    case True
    from ping_it_succeeded [OF True _ err] h
    have run: "ping_lines e new_PingResult (split (CHR 0x0A) out) = Inr r"
      by auto
    show ?thesis
    proof (rule ping_lines_inv [OF run,
            where I = "\<lambda>x. 0 \<le> rtt x ! 0 \<and> rtt x ! 0 \<le> rtt x ! 2 \<and> rtt x ! 2 \<le> rtt x ! 1"])
      show "0 \<le> rtt new_PingResult ! 0 \<and> rtt new_PingResult ! 0 \<le> rtt new_PingResult ! 2 \<and>
            rtt new_PingResult ! 2 \<le> rtt new_PingResult ! 1"
        by (simp add: new_PingResult_def)
    next
      fix l r1 r2
      assume "l \<in> set (split (CHR 0x0A) out)"
        and "0 \<le> rtt r1 ! 0 \<and> rtt r1 ! 0 \<le> rtt r1 ! 2 \<and> rtt r1 ! 2 \<le> rtt r1 ! 1"
        and "ping_line e r1 l = Inr r2"
      with h ping_line_rtt [of e r1 l r2]
      show "0 \<le> rtt r2 ! 0 \<and> rtt r2 ! 0 \<le> rtt r2 ! 2 \<and> rtt r2 ! 2 \<le> rtt r2 ! 1"
        by blast
    qed
  qed
qed

theorem rtt_ordered_when_reported_so_witness:
  "(\<exists>r. ping_it linux_box (main_setup linux_box [''up''] 4 2) ''up'' = Inr r \<and>
        p_stdout (ping_process linux_box (main_setup linux_box [''up''] 4 2) ''up'')
          = Inr linux_reply \<and>
        reports_rtt linux_box ''rtt min/avg/max/mdev = 0.5/1.25/2.75/0.5 ms'' (1 / 2) (5 / 4) (11 / 4) \<and>
        0 \<le> rtt r ! 0 \<and> rtt r ! 0 \<le> rtt r ! 2 \<and> rtt r ! 2 \<le> rtt r ! 1) \<and>
   (\<exists>r. ping_it windows_box (main_setup windows_box [''up''] 4 2000) ''up'' = Inr r \<and>
        p_stdout (ping_process windows_box (main_setup windows_box [''up''] 4 2000) ''up'')
          = Inr windows_reply \<and>
        reports_rtt windows_box (''Minimum = 1ms, Maximum = 9ms, Average = 4ms'' @ [CHR 0x0D]) 1 4 9 \<and>
        0 \<le> rtt r ! 0 \<and> rtt r ! 0 \<le> rtt r ! 2 \<and> rtt r ! 2 \<le> rtt r ! 1)"
proof
  let ?p = "main_setup linux_box [''up''] 4 2"
  let ?l1 = "''--- up ping statistics ---''"
  let ?l2 = "''4 packets transmitted, 4 received, 0% packet loss, time 3004ms''"
  let ?l3 = "''rtt min/avg/max/mdev = 0.5/1.25/2.75/0.5 ms''"
  have "case ping_it linux_box ?p ''up'' of Inl ex \<Rightarrow> False | Inr r \<Rightarrow> True"
    by code_simp
  then obtain r where r: "ping_it linux_box ?p ''up'' = Inr r"
    by (auto split: sum.splits)
  have out: "p_stdout (ping_process linux_box ?p ''up'') = Inr linux_reply"
    by code_simp
  have lines: "split (CHR 0x0A) linux_reply = [?l1, ?l2, ?l3, []]"
    by code_simp
  have no: "contains (lstrip ?l1) ''rtt min'' = False" "contains (lstrip ?l2) ''rtt min'' = False"
    "contains (lstrip []) ''rtt min'' = False"
    by code_simp+
  have tok: "lstrip ?l3 = linux_rtt_line ''0.5'' ''1.25'' ''2.75'' ''0.5'' @ []"
    by code_simp
  have num: "plain ''0.5''" "plain ''1.25''" "plain ''2.75''"
    "decimal ''0.5'' = Inr (1 / 2)" "decimal ''1.25'' = Inr (5 / 4)" "decimal ''2.75'' = Inr (11 / 4)"
    by code_simp+
  have rep: "reports_rtt linux_box (lstrip ?l3) (1 / 2) (5 / 4) (11 / 4)"
    unfolding reports_rtt_def tok linux_box_fields
    by (simp only: if_False, intro exI [of _ "''0.5''"] exI [of _ "''1.25''"]
          exI [of _ "''2.75''"] exI [of _ "[]"])
       (simp only: num simp_thms)
  then have "\<exists>mn av mx. reports_rtt linux_box (lstrip ?l3) mn av mx \<and> 0 \<le> mn \<and> mn \<le> av \<and> av \<le> mx"
    by (intro exI [of _ "1 / 2"] exI [of _ "5 / 4"] exI [of _ "11 / 4"]) simp
  with no have all: "\<forall>line \<in> set (split (CHR 0x0A) linux_reply).
      (if is_windows linux_box then startswith (lstrip line) ''Minimum''
       else contains (lstrip line) ''rtt min'') \<longrightarrow>
      (\<exists>mn av mx. reports_rtt linux_box (lstrip line) mn av mx \<and> 0 \<le> mn \<and> mn \<le> av \<and> av \<le> mx)"
    unfolding lines linux_box_fields by (simp del: contains.simps)
  have "lstrip ?l3 = ?l3"
    by code_simp
  with rep have rep': "reports_rtt linux_box ?l3 (1 / 2) (5 / 4) (11 / 4)"
    by (simp only:)
  from rtt_ordered_when_reported_so
         [where e = linux_box and p = ?p and t = "''up''" and r = r and out = linux_reply]
    r out all
  have "0 \<le> rtt r ! 0 \<and> rtt r ! 0 \<le> rtt r ! 2 \<and> rtt r ! 2 \<le> rtt r ! 1"
    by blast
  with r out rep' show "\<exists>r. ping_it linux_box ?p ''up'' = Inr r \<and>
        p_stdout (ping_process linux_box ?p ''up'') = Inr linux_reply \<and>
        reports_rtt linux_box ?l3 (1 / 2) (5 / 4) (11 / 4) \<and>
        0 \<le> rtt r ! 0 \<and> rtt r ! 0 \<le> rtt r ! 2 \<and> rtt r ! 2 \<le> rtt r ! 1"
    by blast
next
  let ?p = "main_setup windows_box [''up''] 4 2000"
  let ?l1 = "''Ping statistics for up:'' @ [CHR 0x0D]"
  let ?l2 = "''    Packets: Sent = 4, Received = 3, Lost = 1 (25% loss),'' @ [CHR 0x0D]"
  let ?l3 = "''    Minimum = 1ms, Maximum = 9ms, Average = 4ms'' @ [CHR 0x0D]"
  let ?t3 = "''Minimum = 1ms, Maximum = 9ms, Average = 4ms'' @ [CHR 0x0D]"
  have "case ping_it windows_box ?p ''up'' of Inl ex \<Rightarrow> False | Inr r \<Rightarrow> True"
    by code_simp
  then obtain r where r: "ping_it windows_box ?p ''up'' = Inr r"
    by (auto split: sum.splits)
  have out: "p_stdout (ping_process windows_box ?p ''up'') = Inr windows_reply"
    by code_simp
  have lines: "split (CHR 0x0A) windows_reply = [?l1, ?l2, ?l3, []]"
    by code_simp
  have no: "startswith (lstrip ?l1) ''Minimum'' = False" "startswith (lstrip ?l2) ''Minimum'' = False"
    "startswith (lstrip []) ''Minimum'' = False"
    by code_simp+
  have tok: "lstrip ?l3 = windows_rtt_line ''1'' ''9'' ''4'' @ [CHR 0x0D]" "lstrip ?l3 = ?t3"
    by code_simp+
  have num: "plain ''1''" "plain ''4''" "plain ''9''" "\<forall>ch \<in> set [CHR 0x0D]. isspace ch"
    "py_int ''1'' = Inr 1" "py_int ''4'' = Inr 4" "py_int ''9'' = Inr 9"
    by code_simp+
  have rep: "reports_rtt windows_box (lstrip ?l3) 1 4 9"
    unfolding reports_rtt_def tok(1) windows_box_fields
    by (simp only: if_True, intro exI [of _ "''1''"] exI [of _ "''4''"] exI [of _ "''9''"]
          exI [of _ "1"] exI [of _ "4"] exI [of _ "9"] exI [of _ "[CHR 0x0D]"])
       (simp add: num)
  then have "\<exists>mn av mx. reports_rtt windows_box (lstrip ?l3) mn av mx \<and> 0 \<le> mn \<and> mn \<le> av \<and> av \<le> mx"
    by (intro exI [of _ 1] exI [of _ 4] exI [of _ 9]) simp
  with no have all: "\<forall>line \<in> set (split (CHR 0x0A) windows_reply).
      (if is_windows windows_box then startswith (lstrip line) ''Minimum''
       else contains (lstrip line) ''rtt min'') \<longrightarrow>
      (\<exists>mn av mx. reports_rtt windows_box (lstrip line) mn av mx \<and> 0 \<le> mn \<and> mn \<le> av \<and> av \<le> mx)"
    unfolding lines windows_box_fields by simp
  from rep have rep': "reports_rtt windows_box ?t3 1 4 9"
    by (simp only: tok(2))
  from rtt_ordered_when_reported_so
         [where e = windows_box and p = ?p and t = "''up''" and r = r and out = windows_reply]
    r out all
  have "0 \<le> rtt r ! 0 \<and> rtt r ! 0 \<le> rtt r ! 2 \<and> rtt r ! 2 \<le> rtt r ! 1"
    by blast
  with r out rep' show "\<exists>r. ping_it windows_box ?p ''up'' = Inr r \<and>
        p_stdout (ping_process windows_box ?p ''up'') = Inr windows_reply \<and>
        reports_rtt windows_box ?t3 1 4 9 \<and>
        0 \<le> rtt r ! 0 \<and> rtt r ! 0 \<le> rtt r ! 2 \<and> rtt r ! 2 \<le> rtt r ! 1"
    by blast
qed

subsection \<open>A probe that fails\<close>




end
